theory Spec2Isabelle
  imports Complex_Main "HOL-Library.Log_Nat"
begin

section \<open>JavaScript numbers\<close>

text \<open>
  A JavaScript number is a binary64 value: a finite value, one of the two infinities, or
  NaN. A finite value is given by the real number it stands for. Addition, multiplication
  and division round their exact result to the nearest binary64 value, as the language
  does; comparisons, \<open>Math.min\<close>, \<open>Math.max\<close> and \<open>Math.round\<close> are exact. The sign of
  zero is not part of this model. The operations below are the ones the coverage routes
  and the Groq service apply to numbers.
\<close>

datatype jsnum = NaN | NegInf | Fin real | PosInf

definition signed_inf :: "bool \<Rightarrow> jsnum" where
  "signed_inf positive = (if positive then PosInf else NegInf)"

text \<open>
  Rounding to binary64. For \<open>x > 0\<close>, \<open>ilog2 x\<close> is the exponent \<open>e\<close> with
  \<open>2^e \<le> x < 2^(e+1)\<close>. The values of that binade are the multiples of \<open>2^(e - 52)\<close>,
  and below \<open>2^(-1022)\<close> the multiples of \<open>2^(-1074)\<close>. The nearest multiple is taken, a
  tie going to the even one, and a result of \<open>2^1024\<close> or more is an infinity.
\<close>

definition ilog2 :: "real \<Rightarrow> int" where
  "ilog2 x = (if 1 \<le> x then bitlen \<lfloor>x\<rfloor> - 1 else - bitlen (\<lceil>1 / x\<rceil> - 1))"

definition round_half_even :: "real \<Rightarrow> int" where
  "round_half_even x =
     (let n = \<lfloor>x\<rfloor>; d = x - of_int n
      in if d < 1 / 2 then n else if 1 / 2 < d then n + 1 else if even n then n else n + 1)"

definition pow2 :: "int \<Rightarrow> real" where
  "pow2 e = (if 0 \<le> e then 2 ^ nat e else 1 / 2 ^ nat (- e))"

definition binary64 :: "real \<Rightarrow> jsnum" where
  "binary64 x =
     (if x = 0 then Fin 0
      else
        (let e = max (ilog2 \<bar>x\<bar>) (- 1022);
             ulp = pow2 (e - 52);
             y = of_int (round_half_even (\<bar>x\<bar> / ulp)) * ulp
         in if pow2 1024 \<le> y then signed_inf (0 < x) else Fin (sgn x * y)))"

fun isNaN :: "jsnum \<Rightarrow> bool" where
  "isNaN NaN = True"
| "isNaN _ = False"

text \<open>\<open>a > b\<close> and \<open>a >= b\<close>: every comparison with NaN is false.\<close>

fun js_gt :: "jsnum \<Rightarrow> jsnum \<Rightarrow> bool" where
  "js_gt NaN _ = False"
| "js_gt _ NaN = False"
| "js_gt NegInf _ = False"
| "js_gt _ PosInf = False"
| "js_gt PosInf _ = True"
| "js_gt (Fin x) NegInf = True"
| "js_gt (Fin x) (Fin y) = (x > y)"

fun js_ge :: "jsnum \<Rightarrow> jsnum \<Rightarrow> bool" where
  "js_ge NaN _ = False"
| "js_ge _ NaN = False"
| "js_ge PosInf _ = True"
| "js_ge _ NegInf = True"
| "js_ge NegInf _ = False"
| "js_ge (Fin x) PosInf = False"
| "js_ge (Fin x) (Fin y) = (x \<ge> y)"

text \<open>\<open>Math.min(a, b)\<close> and \<open>Math.max(a, b)\<close>: NaN if either argument is NaN.\<close>

fun Math_min :: "jsnum \<Rightarrow> jsnum \<Rightarrow> jsnum" where
  "Math_min NaN _ = NaN"
| "Math_min _ NaN = NaN"
| "Math_min NegInf _ = NegInf"
| "Math_min _ NegInf = NegInf"
| "Math_min PosInf b = b"
| "Math_min a PosInf = a"
| "Math_min (Fin x) (Fin y) = Fin (min x y)"

fun Math_max :: "jsnum \<Rightarrow> jsnum \<Rightarrow> jsnum" where
  "Math_max NaN _ = NaN"
| "Math_max _ NaN = NaN"
| "Math_max PosInf _ = PosInf"
| "Math_max _ PosInf = PosInf"
| "Math_max NegInf b = b"
| "Math_max a NegInf = a"
| "Math_max (Fin x) (Fin y) = Fin (max x y)"

text \<open>\<open>a + b\<close>: opposite infinities add to NaN; a finite sum is rounded.\<close>

fun js_add :: "jsnum \<Rightarrow> jsnum \<Rightarrow> jsnum" where
  "js_add NaN _ = NaN"
| "js_add _ NaN = NaN"
| "js_add PosInf NegInf = NaN"
| "js_add NegInf PosInf = NaN"
| "js_add PosInf _ = PosInf"
| "js_add _ PosInf = PosInf"
| "js_add NegInf _ = NegInf"
| "js_add _ NegInf = NegInf"
| "js_add (Fin x) (Fin y) = binary64 (x + y)"

text \<open>
  \<open>a * b\<close>: zero times an infinity is NaN, otherwise the signs multiply; a finite product
  is rounded.
\<close>

fun js_mul :: "jsnum \<Rightarrow> jsnum \<Rightarrow> jsnum" where
  "js_mul NaN _ = NaN"
| "js_mul _ NaN = NaN"
| "js_mul (Fin x) (Fin y) = binary64 (x * y)"
| "js_mul (Fin x) PosInf = (if x = 0 then NaN else signed_inf (x > 0))"
| "js_mul (Fin x) NegInf = (if x = 0 then NaN else signed_inf (x < 0))"
| "js_mul PosInf (Fin y) = (if y = 0 then NaN else signed_inf (y > 0))"
| "js_mul NegInf (Fin y) = (if y = 0 then NaN else signed_inf (y < 0))"
| "js_mul PosInf PosInf = PosInf"
| "js_mul NegInf NegInf = PosInf"
| "js_mul PosInf NegInf = NegInf"
| "js_mul NegInf PosInf = NegInf"

text \<open>
  \<open>a / b\<close>: a finite value over an infinity is zero, infinity over infinity and zero over
  zero are NaN, and a non-zero value over zero is an infinity (zero is taken as \<open>+0\<close>); a
  finite quotient is rounded.
\<close>

fun js_div :: "jsnum \<Rightarrow> jsnum \<Rightarrow> jsnum" where
  "js_div NaN _ = NaN"
| "js_div _ NaN = NaN"
| "js_div (Fin x) (Fin y) =
     (if y = 0 then (if x = 0 then NaN else signed_inf (x > 0)) else binary64 (x / y))"
| "js_div (Fin x) PosInf = Fin 0"
| "js_div (Fin x) NegInf = Fin 0"
| "js_div PosInf (Fin y) = signed_inf (y \<ge> 0)"
| "js_div NegInf (Fin y) = signed_inf (y < 0)"
| "js_div PosInf PosInf = NaN"
| "js_div PosInf NegInf = NaN"
| "js_div NegInf PosInf = NaN"
| "js_div NegInf NegInf = NaN"

text \<open>
  \<open>Math.round(x)\<close>: the nearest integer, a tie going up, which is the exact
  \<open>floor(x + 1/2)\<close>.
\<close>

fun Math_round :: "jsnum \<Rightarrow> jsnum" where
  "Math_round (Fin x) = Fin (of_int \<lfloor>x + 1 / 2\<rfloor>)"
| "Math_round a = a"

section \<open>The Groq service: calculateSimilarity\<close>

text \<open>
  What the chat completion call gives back to \<open>calculateSimilarity\<close>: either something in
  the \<open>try\<close> block throws (no API key, a failed request, a response without choices), or
  the trimmed content of the first choice reaches \<open>parseFloat\<close>. The content is
  represented by the number \<open>parseFloat\<close> makes of it, a binary64 value, NaN when it does
  not parse.
\<close>

datatype completion = Throws string | Content jsnum

datatype error = Error string

text \<open>
  The model answers differently from call to call, so the client is a function on an
  abstract world \<open>'w\<close> that it may change: it takes the two texts of the prompt.
\<close>

type_synonym 'w groq_client = "'w \<Rightarrow> string \<Rightarrow> string \<Rightarrow> completion \<times> 'w"

definition calculateSimilarity ::
  "'w groq_client \<Rightarrow> string \<Rightarrow> string \<Rightarrow> 'w \<Rightarrow> (error + jsnum) \<times> 'w" where
  "calculateSimilarity client eloText questionText w =
     (case client w eloText questionText of
        (Throws message, w') \<Rightarrow>
          (Inl (Error (''Failed to calculate similarity: '' @ message)), w')
      | (Content score, w') \<Rightarrow>
          (if isNaN score then (Inr (Fin 0), w')
           else (Inr (Math_max (Fin 0) (Math_min (Fin 1) score)), w')))"

section \<open>Documents of the store\<close>

text \<open>
  Object ids are natural numbers. The three collections the coverage routes use are the
  modules (looked up by id), the questions and the coverage reports; the latter two are
  lists in the store's natural order.
\<close>

type_synonym object_id = nat

record learning_outcome =
  lo_loId :: string
  lo_description :: string
  lo_bloomLevel :: string

record module_doc =
  moduleCode :: string
  moduleName :: string
  learningOutcomes :: "learning_outcome list"

datatype question_type = MCQ | Structured

datatype question_source = Uploaded | Manual | AI

record question_doc =
  q_id :: object_id
  q_moduleId :: object_id
  questionText :: string
  questionType :: question_type
  source :: question_source
  options :: "string list"
  correctAnswer :: string

datatype coverage_status = Covered | Partially_Covered | Not_Covered

record covered_question =
  questionId :: object_id
  similarityScore :: jsnum

text \<open>
  A coverage report. \<open>analysisTag\<close> is \<open>None\<close> for a report whose tag is null or absent.
  \<open>analyzedAt\<close> defaults to the time the document is constructed.
\<close>

record coverage_doc =
  cov_moduleId :: object_id
  cov_loId :: string
  coveragePercentage :: jsnum
  status :: coverage_status
  questionsCovered :: "covered_question list"
  analyzedAt :: nat
  analysisTag :: "string option"
  questionCount :: nat
  analyzedQuestions :: "object_id list option"

record database =
  modules :: "object_id \<rightharpoonup> module_doc"
  questions :: "question_doc list"
  coverages :: "coverage_doc list"

text \<open>The lines the coverage analysis writes to the console.\<close>

datatype log_line =
    SkippingNoLearningOutcomes object_id
  | SkippingNoQuestions object_id
  | ErrorCalculatingSimilarity object_id error
  | AnalysisCompleted object_id

section \<open>The coverage analysis: runCoverageAnalysis\<close>

text \<open>A string is truthy unless it is null or empty.\<close>

fun truthy :: "string option \<Rightarrow> bool" where
  "truthy None = False"
| "truthy (Some s) = (s \<noteq> [])"

text \<open>\<open>analysisTag || null\<close>: the scope a run with the tag \<open>tag\<close> works in.\<close>

definition scope_of :: "string option \<Rightarrow> string option" where
  "scope_of tag = (if truthy tag then tag else None)"

text \<open>
  The questions of a run: \<open>Question.find\<close> with the module id and, when \<open>questionIds\<close>
  is an array that is not empty, with \<open>_id\<close> among them.
\<close>

definition resolveQuestions ::
  "database \<Rightarrow> object_id \<Rightarrow> object_id list option \<Rightarrow> question_doc list" where
  "resolveQuestions db moduleId questionIds =
     (case questionIds of
        Some ids \<Rightarrow>
          (if length ids > 0
           then filter (\<lambda>q. q_moduleId q = moduleId \<and> q_id q \<in> set ids) (questions db)
           else filter (\<lambda>q. q_moduleId q = moduleId) (questions db))
      | None \<Rightarrow> filter (\<lambda>q. q_moduleId q = moduleId) (questions db))"

text \<open>
  \<open>Coverage.deleteMany\<close>: with a truthy tag the reports of the module with that tag go,
  otherwise the reports of the module without a tag.
\<close>

definition deletePrior ::
  "object_id \<Rightarrow> string option \<Rightarrow> coverage_doc list \<Rightarrow> coverage_doc list" where
  "deletePrior moduleId tag covs =
     (if truthy tag
      then filter (\<lambda>r. \<not> (cov_moduleId r = moduleId \<and> analysisTag r = tag)) covs
      else filter (\<lambda>r. \<not> (cov_moduleId r = moduleId \<and> analysisTag r = None)) covs)"

text \<open>The three accumulators of the loop over the questions.\<close>

record tally =
  acc_questionsCovered :: "covered_question list"
  acc_totalSimilarity :: jsnum
  acc_questionCount :: nat

definition empty_tally :: tally where
  "empty_tally = \<lparr>acc_questionsCovered = [], acc_totalSimilarity = Fin 0, acc_questionCount = 0\<rparr>"

text \<open>
  The loop over the questions for one learning outcome, on \<open>questionsCovered\<close>,
  \<open>totalSimilarity\<close> and \<open>questionCount\<close>. A similarity above 0.3 puts the
  question among the covered ones; an error of \<open>calculateSimilarity\<close> is caught, written
  to the console, and the loop goes on with the next question. The literal \<open>0.3\<close> of the
  source is the binary64 value next below 3/10, and no binary64 value lies between the
  two, so a score is above the one exactly when it is above the other.
\<close>

fun compareQuestions ::
  "'w groq_client \<Rightarrow> learning_outcome \<Rightarrow> question_doc list \<Rightarrow>
   tally \<times> log_line list \<times> 'w \<Rightarrow> tally \<times> log_line list \<times> 'w" where
  "compareQuestions client lo [] (t, console, w) = (t, console, w)"
| "compareQuestions client lo (question # rest) (t, console, w) =
     (case calculateSimilarity client (lo_description lo) (questionText question) w of
        (Inr score, w') \<Rightarrow>
          (if js_gt score (Fin (3 / 10))
           then compareQuestions client lo rest
                  (\<lparr>acc_questionsCovered = acc_questionsCovered t @
                       [\<lparr>questionId = q_id question, similarityScore = score\<rparr>],
                    acc_totalSimilarity = js_add (acc_totalSimilarity t) score,
                    acc_questionCount = acc_questionCount t + 1\<rparr>, console, w')
           else compareQuestions client lo rest (t, console, w'))
      | (Inl err, w') \<Rightarrow>
          compareQuestions client lo rest
            (t, console @ [ErrorCalculatingSimilarity (q_id question) err], w'))"

text \<open>
  The percentage of a learning outcome, from the accumulators. \<open>questionCount\<close> counts
  questions and stays far below \<open>2^53\<close>, where every integer is a binary64 value.
\<close>

definition percentage_of :: "tally \<Rightarrow> jsnum" where
  "percentage_of t =
     (let averageSimilarity =
            (if acc_questionCount t > 0
             then js_div (acc_totalSimilarity t) (Fin (real (acc_questionCount t)))
             else Fin 0)
      in Math_min (Fin 100) (Math_round (js_mul averageSimilarity (Fin 100))))"

definition status_of :: "jsnum \<Rightarrow> coverage_status" where
  "status_of percentage =
     (if js_ge percentage (Fin 70) then Covered
      else if js_ge percentage (Fin 30) then Partially_Covered
      else Not_Covered)"

text \<open>
  The loop over the learning outcomes: one report is built and saved for each. \<open>clock\<close>
  reads the time at which the report is constructed.
\<close>

fun analyzeOutcomes ::
  "'w groq_client \<Rightarrow> ('w \<Rightarrow> nat) \<Rightarrow> object_id \<Rightarrow> object_id list option \<Rightarrow> string option \<Rightarrow>
   question_doc list \<Rightarrow> learning_outcome list \<Rightarrow>
   coverage_doc list \<times> log_line list \<times> 'w \<Rightarrow> coverage_doc list \<times> log_line list \<times> 'w" where
  "analyzeOutcomes client clock moduleId questionIds tag qs [] (covs, console, w) =
     (covs, console, w)"
| "analyzeOutcomes client clock moduleId questionIds tag qs (lo # los) (covs, console, w) =
     (case compareQuestions client lo qs (empty_tally, console, w) of
        (t, console', w') \<Rightarrow>
          (let percentage = percentage_of t;
               coverage = \<lparr>cov_moduleId = moduleId,
                           cov_loId = lo_loId lo,
                           coveragePercentage = percentage,
                           status = status_of percentage,
                           questionsCovered = acc_questionsCovered t,
                           analyzedAt = clock w',
                           analysisTag = scope_of tag,
                           questionCount = length qs,
                           analyzedQuestions = questionIds\<rparr>
           in analyzeOutcomes client clock moduleId questionIds tag qs los
                (covs @ [coverage], console', w')))"

text \<open>
  \<open>analyzedQuestions: questionIds || null\<close> keeps every array, the empty one too, since an
  array is truthy; so the field is \<open>questionIds\<close> as it was passed.

  The run, from the state of the store, the console and the world to the state it leaves.
  The operations of the store are taken to succeed, so the outer \<open>catch\<close>, which only logs,
  has no branch here; the bounds the schema checks when a report is saved are shown to
  hold for every report of a run (\<open>newReports_within_schema\<close>).
\<close>

definition runCoverageAnalysis ::
  "'w groq_client \<Rightarrow> ('w \<Rightarrow> nat) \<Rightarrow> object_id \<Rightarrow> object_id list option \<Rightarrow> string option \<Rightarrow>
   database \<times> log_line list \<times> 'w \<Rightarrow> database \<times> log_line list \<times> 'w" where
  "runCoverageAnalysis client clock moduleId questionIds tag s =
     (case s of (db, console, w) \<Rightarrow>
        (case modules db moduleId of
           None \<Rightarrow> (db, console @ [SkippingNoLearningOutcomes moduleId], w)
         | Some m \<Rightarrow>
             (if length (learningOutcomes m) = 0
              then (db, console @ [SkippingNoLearningOutcomes moduleId], w)
              else
                (let qs = resolveQuestions db moduleId questionIds in
                 if length qs = 0
                 then (db, console @ [SkippingNoQuestions moduleId], w)
                 else
                   (case analyzeOutcomes client clock moduleId questionIds tag qs
                           (learningOutcomes m)
                           (deletePrior moduleId tag (coverages db), console, w) of
                      (covs, console', w') \<Rightarrow>
                        (db\<lparr>coverages := covs\<rparr>,
                         console' @ [AnalysisCompleted moduleId], w'))))))"

section \<open>The report routes\<close>

text \<open>
  \<open>Coverage.find(query)\<close> of the two read routes: the reports of the module with the tag
  of the request when it is truthy, otherwise those without a tag.
\<close>

datatype http_error = NotFound string

definition findReports :: "database \<Rightarrow> object_id \<Rightarrow> string option \<Rightarrow> coverage_doc list" where
  "findReports db moduleId tag =
     (if truthy tag
      then filter (\<lambda>r. cov_moduleId r = moduleId \<and> analysisTag r = tag) (coverages db)
      else filter (\<lambda>r. cov_moduleId r = moduleId \<and> analysisTag r = None) (coverages db))"

text \<open>\<open>.sort({ analyzedAt: -1 })\<close>: the most recent report first.\<close>

definition sortMostRecentFirst :: "coverage_doc list \<Rightarrow> coverage_doc list" where
  "sortMostRecentFirst reports = sort_key (\<lambda>r. - int (analyzedAt r)) reports"

text \<open>
  The loop that fills the map \<open>uniqueReports\<close>: a report is stored under its \<open>loId\<close>
  unless the map has the key already. The map keeps its keys in the order they came in, so
  it is a list of pairs here.
\<close>

fun deduplicate ::
  "coverage_doc list \<Rightarrow> (string \<times> coverage_doc) list \<Rightarrow> (string \<times> coverage_doc) list" where
  "deduplicate [] uniqueReports = uniqueReports"
| "deduplicate (report # rest) uniqueReports =
     (if cov_loId report \<in> fst ` set uniqueReports
      then deduplicate rest uniqueReports
      else deduplicate rest (uniqueReports @ [(cov_loId report, report)]))"

text \<open>
  One entry of the \<open>results\<close> array of \<open>GET /module/:moduleId\<close>. The populated
  question documents are left as their ids.
\<close>

record lo_result =
  res_loId :: string
  res_description :: string
  res_bloomLevel :: string
  res_coveragePercentage :: jsnum
  res_status :: coverage_status
  res_questionsCovered :: "covered_question list"
  questionsCoveredCount :: nat
  res_analyzedAt :: nat

definition enrich :: "module_doc \<Rightarrow> coverage_doc \<Rightarrow> lo_result" where
  "enrich m report =
     (let lo = find (\<lambda>lo. lo_loId lo = cov_loId report) (learningOutcomes m)
      in \<lparr>res_loId = cov_loId report,
          res_description = (case lo of Some l \<Rightarrow> lo_description l | None \<Rightarrow> ''Unknown''),
          res_bloomLevel = (case lo of Some l \<Rightarrow> lo_bloomLevel l | None \<Rightarrow> ''Unknown''),
          res_coveragePercentage = coveragePercentage report,
          res_status = status report,
          res_questionsCovered = questionsCovered report,
          questionsCoveredCount = length (questionsCovered report),
          res_analyzedAt = analyzedAt report\<rparr>)"

text \<open>
  \<open>GET /module/:moduleId\<close>: the \<open>results\<close> array of the response, or 404 when the module
  does not exist.
\<close>

definition getModuleResults ::
  "database \<Rightarrow> object_id \<Rightarrow> string option \<Rightarrow> http_error + lo_result list" where
  "getModuleResults db moduleId tag =
     (case modules db moduleId of
        None \<Rightarrow> Inl (NotFound ''Module not found'')
      | Some m \<Rightarrow>
          (let coverageReports = sortMostRecentFirst (findReports db moduleId tag);
               deduplicatedReports = map snd (deduplicate coverageReports [])
           in Inr (map (enrich m) deduplicatedReports)))"

text \<open>\<open>GET /stats/:moduleId\<close>: the \<open>stats\<close> object of the response.\<close>

record stats =
  totalLOs :: nat
  covered :: nat
  partiallyCovered :: nat
  notCovered :: nat
  averageCoverage :: jsnum

definition getStats :: "database \<Rightarrow> object_id \<Rightarrow> string option \<Rightarrow> http_error + stats" where
  "getStats db moduleId tag =
     (case modules db moduleId of
        None \<Rightarrow> Inl (NotFound ''Module not found'')
      | Some m \<Rightarrow>
          (let coverageReports = findReports db moduleId tag
           in Inr \<lparr>totalLOs = length (learningOutcomes m),
                   covered = length (filter (\<lambda>r. status r = Covered) coverageReports),
                   partiallyCovered =
                     length (filter (\<lambda>r. status r = Partially_Covered) coverageReports),
                   notCovered = length (filter (\<lambda>r. status r = Not_Covered) coverageReports),
                   averageCoverage =
                     (if length coverageReports > 0
                      then Math_round
                             (js_div (foldl (\<lambda>sum r. js_add sum (coveragePercentage r)) (Fin 0)
                                        coverageReports)
                                (Fin (real (length coverageReports))))
                      else Fin 0)\<rparr>))"

section \<open>Saving a generated multiple-choice question\<close>

text \<open>
  One element of \<open>generatedQuestions.mcqs\<close>, as parsed from the JSON the model wrote: any
  of the three fields may be missing.
\<close>

record generated_mcq =
  mcq_question :: "string option"
  mcq_options :: "string list option"
  mcq_correctAnswer :: "string option"

text \<open>
  The \<open>while\<close> loop that pads the options: as long as there are fewer than four, the
  label \<open>Option\<close> with the letter \<open>String.fromCharCode(65 + options.length)\<close> is pushed.
\<close>

function padOptions :: "string list \<Rightarrow> string list" where
  "padOptions opts =
     (if length opts < 4
      then padOptions (opts @ [''Option '' @ [char_of (65 + length opts)]])
      else opts)"
  by pat_completeness auto
termination
  by (relation "measure (\<lambda>opts. 4 - length opts)") auto

declare padOptions.simps [simp del]

text \<open>
  The body of the loop over the generated MCQs: at most four options are kept
  (\<open>slice(0, 4)\<close>), the list is padded, and the question is built and saved. Saving
  validates the document: \<open>questionText\<close> is required, so a missing or empty text throws.
  \<open>newId\<close> is the id the document gets.
\<close>

definition saveGeneratedMCQ ::
  "object_id \<Rightarrow> object_id \<Rightarrow> generated_mcq \<Rightarrow> error + question_doc" where
  "saveGeneratedMCQ newId moduleId mcq =
     (let opts = padOptions (take 4 (case mcq_options mcq of Some given \<Rightarrow> given | None \<Rightarrow> []));
          firstOption = (case opts of [] \<Rightarrow> [] | first # _ \<Rightarrow> first);
          question =
            \<lparr>q_id = newId,
             q_moduleId = moduleId,
             questionText = (case mcq_question mcq of Some text \<Rightarrow> text | None \<Rightarrow> []),
             questionType = MCQ,
             source = AI,
             options = opts,
             correctAnswer =
               (case mcq_correctAnswer mcq of
                  Some answer \<Rightarrow> (if answer \<noteq> [] then answer else firstOption)
                | None \<Rightarrow> firstOption)\<rparr>
      in if questionText question = []
         then Inl (Error ''Question validation failed: questionText is required'')
         else Inr question)"

section \<open>Notions for the statements\<close>

text \<open>
  What \<open>calculateSimilarity\<close> gives for each question of the loop over one learning
  outcome, in the order of the calls.
\<close>

fun outcomes ::
  "'w groq_client \<Rightarrow> learning_outcome \<Rightarrow> question_doc list \<Rightarrow> 'w \<Rightarrow> (error + jsnum) list" where
  "outcomes client lo [] w = []"
| "outcomes client lo (question # rest) w =
     (case calculateSimilarity client (lo_description lo) (questionText question) w of
        (r, w') \<Rightarrow> r # outcomes client lo rest w')"

text \<open>The entry a question gets among the covered ones, if its outcome gives it one.\<close>

fun counted :: "question_doc \<times> (error + jsnum) \<Rightarrow> covered_question option" where
  "counted (q, Inr score) =
     (if js_gt score (Fin (3 / 10)) then Some \<lparr>questionId = q_id q, similarityScore = score\<rparr> else None)"
| "counted (q, Inl err) = None"

text \<open>The console line of a question whose similarity could not be calculated.\<close>

fun failed :: "question_doc \<times> (error + jsnum) \<Rightarrow> log_line option" where
  "failed (q, Inl err) = Some (ErrorCalculatingSimilarity (q_id q) err)"
| "failed (q, Inr score) = None"

text \<open>A number that is not negative: a finite one from 0 on, or the positive infinity.\<close>

definition nonneg :: "jsnum \<Rightarrow> bool" where
  "nonneg a = (case a of Fin x \<Rightarrow> 0 \<le> x | PosInf \<Rightarrow> True | NaN \<Rightarrow> False | NegInf \<Rightarrow> False)"

text \<open>
  The mean as the run computes it: the scores are added from 0 on in their order, each
  sum rounded, and the total is divided by their number.
\<close>

definition js_mean :: "jsnum list \<Rightarrow> jsnum" where
  "js_mean scores = js_div (foldl js_add (Fin 0) scores) (Fin (real (length scores)))"

text \<open>
  The invariant of the loop over the questions: the scores of the covered questions are
  finite, above 0.3 and at most 1, \<open>totalSimilarity\<close> is their sum as the loop adds them and
  is not negative, and \<open>questionCount\<close> is their number.
\<close>

definition sound_tally :: "tally \<Rightarrow> bool" where
  "sound_tally t =
     ((\<exists>ys. map similarityScore (acc_questionsCovered t) = map Fin ys \<and>
            (\<forall>y \<in> set ys. 3 / 10 < y \<and> y \<le> 1)) \<and>
      nonneg (acc_totalSimilarity t) \<and>
      acc_totalSimilarity t =
        foldl js_add (Fin 0) (map similarityScore (acc_questionsCovered t)) \<and>
      acc_questionCount t = length (acc_questionsCovered t))"

text \<open>
  A run gets past its two early returns when the module exists, has a learning outcome,
  and the questions of the run are not empty.
\<close>

definition proceeds :: "database \<Rightarrow> object_id \<Rightarrow> object_id list option \<Rightarrow> bool" where
  "proceeds db moduleId questionIds =
     (case modules db moduleId of
        None \<Rightarrow> False
      | Some m \<Rightarrow> learningOutcomes m \<noteq> [] \<and> resolveQuestions db moduleId questionIds \<noteq> [])"

text \<open>The reports a run saves, in the order of the learning outcomes.\<close>

definition newReports ::
  "'w groq_client \<Rightarrow> ('w \<Rightarrow> nat) \<Rightarrow> object_id \<Rightarrow> object_id list option \<Rightarrow> string option \<Rightarrow>
   database \<times> log_line list \<times> 'w \<Rightarrow> coverage_doc list" where
  "newReports client clock moduleId questionIds tag s =
     (case s of (db, console, w) \<Rightarrow>
        (case modules db moduleId of
           None \<Rightarrow> []
         | Some m \<Rightarrow>
             (if proceeds db moduleId questionIds
              then fst (analyzeOutcomes client clock moduleId questionIds tag
                          (resolveQuestions db moduleId questionIds) (learningOutcomes m)
                          ([], console, w))
              else [])))"

text \<open>The report built from the state in which the loop over the questions ends.\<close>

definition report_of ::
  "('w \<Rightarrow> nat) \<Rightarrow> object_id \<Rightarrow> object_id list option \<Rightarrow> string option \<Rightarrow> question_doc list \<Rightarrow>
   learning_outcome \<Rightarrow> tally \<times> log_line list \<times> 'w \<Rightarrow> coverage_doc" where
  "report_of clock moduleId questionIds tag qs lo s =
     (case s of (t, console, w) \<Rightarrow>
        \<lparr>cov_moduleId = moduleId, cov_loId = lo_loId lo,
         coveragePercentage = percentage_of t, status = status_of (percentage_of t),
         questionsCovered = acc_questionsCovered t, analyzedAt = clock w,
         analysisTag = scope_of tag, questionCount = length qs,
         analyzedQuestions = questionIds\<rparr>)"

section \<open>Concrete runs\<close>

text \<open>
  A client for concrete runs: it answers from a script, one completion per call, and
  throws once the script is used up.
\<close>

definition scripted :: "completion list groq_client" where
  "scripted w eloText qText =
     (case w of [] \<Rightarrow> (Throws ''no reply'', []) | c # cs \<Rightarrow> (c, cs))"

text \<open>A clock for the scripted client: time passes as the script is used up.\<close>

definition scripted_clock :: "completion list \<Rightarrow> nat" where
  "scripted_clock w = 1000 - length w"

text \<open>
  The module CS101 with two learning outcomes and three questions; a fourth question
  belongs to another module. In the first script the model scores the three questions at
  0.8, 0.1 and 0.5 for LO1 and at 0 for LO2. A decimal such as 0.8 reaches the run as the
  binary64 value \<open>parseFloat\<close> gives for it, \<open>binary64 (8 / 10)\<close>.
\<close>

definition cs101_LO1 :: learning_outcome where
  "cs101_LO1 =
     \<lparr>lo_loId = ''LO1'', lo_description = ''understand loops'', lo_bloomLevel = ''Understand''\<rparr>"

definition cs101_module :: module_doc where
  "cs101_module =
     \<lparr>moduleCode = ''CS101'', moduleName = ''Programming'',
      learningOutcomes =
        [cs101_LO1,
         \<lparr>lo_loId = ''LO2'', lo_description = ''build a sorting algorithm'',
          lo_bloomLevel = ''Create''\<rparr>]\<rparr>"

definition cs101_question :: "object_id \<Rightarrow> object_id \<Rightarrow> string \<Rightarrow> question_doc" where
  "cs101_question i m text =
     \<lparr>q_id = i, q_moduleId = m, questionText = text, questionType = Structured,
      source = Manual, options = [], correctAnswer = []\<rparr>"

definition cs101 :: database where
  "cs101 =
     \<lparr>modules = [1 \<mapsto> cs101_module],
      questions = [cs101_question 11 1 ''Q1'', cs101_question 12 1 ''Q2'',
                   cs101_question 13 1 ''Q3'', cs101_question 21 2 ''Q4''],
      coverages = []\<rparr>"

definition cs101_script :: "completion list" where
  "cs101_script =
     [Content (binary64 (8 / 10)), Content (binary64 (1 / 10)), Content (binary64 (5 / 10)),
      Content (Fin 0), Content (Fin 0), Content (Fin 0)]"

definition cs101_LO1_report :: coverage_doc where
  "cs101_LO1_report =
     \<lparr>cov_moduleId = 1, cov_loId = ''LO1'', coveragePercentage = Fin 65,
      status = Partially_Covered,
      questionsCovered = [\<lparr>questionId = 11, similarityScore = binary64 (8 / 10)\<rparr>,
                          \<lparr>questionId = 13, similarityScore = binary64 (5 / 10)\<rparr>],
      analyzedAt = 997, analysisTag = None, questionCount = 3, analyzedQuestions = None\<rparr>"

definition cs101_LO2_report :: coverage_doc where
  "cs101_LO2_report =
     \<lparr>cov_moduleId = 1, cov_loId = ''LO2'', coveragePercentage = Fin 0, status = Not_Covered,
      questionsCovered = [],
      analyzedAt = 1000, analysisTag = None, questionCount = 3, analyzedQuestions = None\<rparr>"

text \<open>
  A second script: the first answer is 0.3, two calls fail, and one answer is not a
  number.
\<close>

definition faulty_script :: "completion list" where
  "faulty_script =
     [Content (binary64 (3 / 10)), Throws ''timeout'', Content (binary64 (31 / 100)),
      Throws ''timeout'', Content (binary64 (9 / 10)), Content NaN]"

definition faulty_LO1_report :: coverage_doc where
  "faulty_LO1_report =
     \<lparr>cov_moduleId = 1, cov_loId = ''LO1'', coveragePercentage = Fin 31,
      status = Partially_Covered,
      questionsCovered = [\<lparr>questionId = 13, similarityScore = binary64 (31 / 100)\<rparr>],
      analyzedAt = 997, analysisTag = None, questionCount = 3, analyzedQuestions = None\<rparr>"

definition faulty_LO2_report :: coverage_doc where
  "faulty_LO2_report =
     \<lparr>cov_moduleId = 1, cov_loId = ''LO2'', coveragePercentage = Fin 90, status = Covered,
      questionsCovered = [\<lparr>questionId = 12, similarityScore = binary64 (9 / 10)\<rparr>],
      analyzedAt = 1000, analysisTag = None, questionCount = 3, analyzedQuestions = None\<rparr>"

text \<open>
  A store that already holds reports: one of module 1 without a tag, one of module 1 with
  the tag \<open>midterm\<close>, and one of module 2.
\<close>

definition earlier_report :: "object_id \<Rightarrow> string option \<Rightarrow> coverage_doc" where
  "earlier_report m tag =
     \<lparr>cov_moduleId = m, cov_loId = ''LO1'', coveragePercentage = Fin 40,
      status = Partially_Covered,
      questionsCovered = [\<lparr>questionId = 12, similarityScore = binary64 (4 / 10)\<rparr>],
      analyzedAt = 5, analysisTag = tag, questionCount = 1, analyzedQuestions = None\<rparr>"

definition cs101_analyzed :: database where
  "cs101_analyzed =
     cs101\<lparr>coverages := [earlier_report 1 None, earlier_report 1 (Some ''midterm''),
                          earlier_report 2 None]\<rparr>"

text \<open>A store with two reports of different times for the same learning outcome and scope.\<close>

definition duplicated :: database where
  "duplicated =
     cs101\<lparr>coverages :=
       [\<lparr>cov_moduleId = 1, cov_loId = ''LO1'', coveragePercentage = Fin 0, status = Not_Covered,
         questionsCovered = [], analyzedAt = 1, analysisTag = None, questionCount = 3,
         analyzedQuestions = None\<rparr>,
        \<lparr>cov_moduleId = 1, cov_loId = ''LO1'', coveragePercentage = Fin 80, status = Covered,
         questionsCovered = [\<lparr>questionId = 11, similarityScore = binary64 (8 / 10)\<rparr>],
         analyzedAt = 2, analysisTag = None, questionCount = 3, analyzedQuestions = None\<rparr>]\<rparr>"

section \<open>Rounding to binary64\<close>

text \<open>
  \<open>ilog2\<close> finds the binade of a positive number, and \<open>round_half_even\<close> an integer
  nearest to its argument, so \<open>binary64\<close> takes a nearest multiple of the spacing of that
  binade.
\<close>

lemma pow2_nat: "0 \<le> e \<Longrightarrow> pow2 e = 2 ^ nat e"
  by (simp add: pow2_def)

lemma pow2_neg: "0 \<le> b \<Longrightarrow> pow2 (- b) = 1 / 2 ^ nat b"
  by (cases "b = 0") (simp_all add: pow2_def)

lemma ilog2_bounds:
  assumes "0 < x"
  shows "pow2 (ilog2 x) \<le> x \<and> x < pow2 (ilog2 x + 1)"
proof (cases "1 \<le> x")
  case True
  define n where "n = \<lfloor>x\<rfloor>"
  from True have n: "0 < n" by (simp add: n_def)
  from bitlen_bounds [OF n] have b: "2 ^ nat (bitlen n - 1) \<le> n" "n < 2 ^ nat (bitlen n)"
    by simp_all
  from n have pos: "1 \<le> bitlen n" by (simp add: bitlen_alt_def)
  have e: "ilog2 x = bitlen n - 1" using True by (simp add: ilog2_def n_def)
  have "real_of_int (2 ^ nat (bitlen n - 1)) \<le> real_of_int n" using b(1) by (simp only: of_int_le_iff)
  also have "\<dots> \<le> x" by (simp add: n_def)
  finally have lo: "pow2 (ilog2 x) \<le> x" using pos by (simp add: e pow2_nat)
  from b(2) have "n + 1 \<le> 2 ^ nat (bitlen n)" by simp
  then have "real_of_int (n + 1) \<le> real_of_int (2 ^ nat (bitlen n))" by (simp only: of_int_le_iff)
  moreover have "x < real_of_int (n + 1)" by (simp add: n_def)
  ultimately have "x < 2 ^ nat (bitlen n)" by simp
  then have hi: "x < pow2 (ilog2 x + 1)" using pos by (simp add: e pow2_nat)
  from lo hi show ?thesis by simp
next
  case False
  with assms have x: "0 < x" "x < 1" by simp_all
  define z where "z = 1 / x"
  from x have z: "1 < z" by (simp add: z_def)
  define m where "m = \<lceil>z\<rceil> - 1"
  from z have m: "0 < m" unfolding m_def by linarith
  from bitlen_bounds [OF m] have b: "2 ^ nat (bitlen m - 1) \<le> m" "m < 2 ^ nat (bitlen m)"
    by simp_all
  from m have pos: "1 \<le> bitlen m" by (simp add: bitlen_alt_def)
  have e: "ilog2 x = - bitlen m" using False by (simp add: ilog2_def m_def z_def)
  have mz: "real_of_int m < z" "z \<le> real_of_int m + 1" unfolding m_def by linarith+
  from b(2) have "m + 1 \<le> 2 ^ nat (bitlen m)" by simp
  then have "real_of_int (m + 1) \<le> real_of_int (2 ^ nat (bitlen m))" by (simp only: of_int_le_iff)
  with mz(2) have "z \<le> 2 ^ nat (bitlen m)" by simp
  then have "1 / x \<le> 2 ^ nat (bitlen m)" by (simp add: z_def)
  with x(1) have "1 / 2 ^ nat (bitlen m) \<le> x"
    by (simp add: field_simps)
  then have lo: "pow2 (ilog2 x) \<le> x" using pos by (simp add: e pow2_neg)
  have "(2::real) ^ nat (bitlen m - 1) \<le> real_of_int m"
    using of_int_le_iff [of "2 ^ nat (bitlen m - 1)" m, where ?'a = real] b(1) by simp
  with mz(1) have "2 ^ nat (bitlen m - 1) < 1 / x" unfolding z_def by linarith
  with x(1) have "x < 1 / 2 ^ nat (bitlen m - 1)" by (simp add: field_simps)
  moreover have "pow2 (ilog2 x + 1) = 1 / 2 ^ nat (bitlen m - 1)"
    using pos pow2_neg [of "bitlen m - 1"] by (simp add: e)
  ultimately have hi: "x < pow2 (ilog2 x + 1)" by simp
  from lo hi show ?thesis by simp
qed

lemma round_half_even_nearest: "\<bar>of_int (round_half_even x) - x\<bar> \<le> 1 / 2"
  unfolding round_half_even_def Let_def by (simp; linarith)

section \<open>The similarity score\<close>

lemma clamp_finite:
  "\<not> isNaN score \<Longrightarrow> \<exists>x. Math_max (Fin 0) (Math_min (Fin 1) score) = Fin x \<and> 0 \<le> x \<and> x \<le> 1"
  by (cases score) auto

lemma calculateSimilarity_range:
  assumes "calculateSimilarity client elo qt w = (Inr v, w')"
  shows "\<exists>y. v = Fin y \<and> 0 \<le> y \<and> y \<le> 1"
proof (cases "client w elo qt")
  case (Pair c w1)
  show ?thesis
  proof (cases c)
    case (Throws m)
    with Pair assms show ?thesis by (simp add: calculateSimilarity_def)
  next
    case (Content score)
    show ?thesis
    proof (cases "isNaN score")
      case True
      with Pair Content assms show ?thesis by (auto simp: calculateSimilarity_def)
    next
      case False
      from clamp_finite [OF False] Pair Content assms False show ?thesis
        by (auto simp: calculateSimilarity_def)
    qed
  qed
qed

text \<open>
  C8. When the answer of the model does not parse to a number (\<open>parseFloat\<close> gives NaN),
  \<open>calculateSimilarity\<close> returns 0; a finite number is clamped into the interval from 0 to
  1, the infinities go to its ends; so every score that is returned, and not thrown, is a
  finite number between 0 and 1.
\<close>

theorem calculateSimilarity_clamps:
  "(client w elo qt = (Content NaN, w') \<longrightarrow>
      calculateSimilarity client elo qt w = (Inr (Fin 0), w')) \<and>
   (client w elo qt = (Content (Fin x), w') \<longrightarrow>
      calculateSimilarity client elo qt w = (Inr (Fin (max 0 (min 1 x))), w')) \<and>
   (client w elo qt = (Content PosInf, w') \<longrightarrow>
      calculateSimilarity client elo qt w = (Inr (Fin 1), w')) \<and>
   (client w elo qt = (Content NegInf, w') \<longrightarrow>
      calculateSimilarity client elo qt w = (Inr (Fin 0), w')) \<and>
   (\<forall>v. fst (calculateSimilarity client elo qt w) = Inr v \<longrightarrow>
      (\<exists>y. v = Fin y \<and> 0 \<le> y \<and> y \<le> 1))"
proof -
  have "\<exists>y. v = Fin y \<and> 0 \<le> y \<and> y \<le> 1"
    if "fst (calculateSimilarity client elo qt w) = Inr v" for v
    using that calculateSimilarity_range [of client elo qt w v]
    by (cases "calculateSimilarity client elo qt w") simp
  then show ?thesis
    by (simp add: calculateSimilarity_def)
qed

theorem calculateSimilarity_clamps_witness:
  "calculateSimilarity scripted ''understand loops'' ''What is a loop?'' [Content NaN] =
     (Inr (Fin 0), []) \<and>
   calculateSimilarity scripted ''understand loops'' ''What is a loop?'' [Content (Fin (3 / 2))] =
     (Inr (Fin 1), []) \<and>
   calculateSimilarity scripted ''understand loops'' ''What is a loop?'' [Content (Fin (- 2))] =
     (Inr (Fin 0), []) \<and>
   calculateSimilarity scripted ''understand loops'' ''What is a loop?'' [Content (Fin (3 / 4))] =
     (Inr (Fin (3 / 4)), [])"
  using calculateSimilarity_clamps [of scripted "[Content NaN]" "''understand loops''"
      "''What is a loop?''" "[]" "3 / 2"]
    calculateSimilarity_clamps [of scripted "[Content (Fin (3 / 2))]" "''understand loops''"
      "''What is a loop?''" "[]" "3 / 2"]
    calculateSimilarity_clamps [of scripted "[Content (Fin (- 2))]" "''understand loops''"
      "''What is a loop?''" "[]" "- 2"]
    calculateSimilarity_clamps [of scripted "[Content (Fin (3 / 4))]" "''understand loops''"
      "''What is a loop?''" "[]" "3 / 4"]
  by (simp add: scripted_def)

section \<open>The loop over the questions\<close>

lemma length_outcomes: "length (outcomes client lo qs w) = length qs"
  by (induction qs arbitrary: w) (auto split: prod.splits)

lemma outcomes_range:
  "Inr v \<in> set (outcomes client lo qs w) \<Longrightarrow> \<exists>y. v = Fin y \<and> 0 \<le> y \<and> y \<le> 1"
proof (induction qs arbitrary: w)
  case Nil
  then show ?case by simp
next
  case (Cons q qs)
  obtain r w1 where c: "calculateSimilarity client (lo_description lo) (questionText q) w = (r, w1)"
    by (cases "calculateSimilarity client (lo_description lo) (questionText q) w")
  with Cons.prems have "r = Inr v \<or> Inr v \<in> set (outcomes client lo qs w1)" by auto
  then show ?case
  proof
    assume "r = Inr v"
    with c show ?thesis by (auto dest: calculateSimilarity_range)
  next
    assume "Inr v \<in> set (outcomes client lo qs w1)"
    then show ?thesis by (rule Cons.IH)
  qed
qed

lemma compareQuestions_covered:
  "acc_questionsCovered (fst (compareQuestions client lo qs (t, console, w))) =
     acc_questionsCovered t @ List.map_filter counted (zip qs (outcomes client lo qs w))"
  by (induction qs arbitrary: t console w)
     (auto simp: List.map_filter_simps split: prod.splits sum.splits)

lemma compareQuestions_total:
  "acc_totalSimilarity (fst (compareQuestions client lo qs (t, console, w))) =
     foldl js_add (acc_totalSimilarity t)
       (map similarityScore (List.map_filter counted (zip qs (outcomes client lo qs w))))"
  by (induction qs arbitrary: t console w)
     (auto simp: List.map_filter_simps split: prod.splits sum.splits)

lemma compareQuestions_count:
  "acc_questionCount (fst (compareQuestions client lo qs (t, console, w))) =
     acc_questionCount t + length (List.map_filter counted (zip qs (outcomes client lo qs w)))"
  by (induction qs arbitrary: t console w)
     (auto simp: List.map_filter_simps split: prod.splits sum.splits)


lemma in_set_map_filter: "z \<in> set (List.map_filter f xs) \<longleftrightarrow> (\<exists>x \<in> set xs. f x = Some z)"
  by (induction xs) (auto simp: List.map_filter_simps split: option.splits)

lemma round_half_even_nonneg: "0 \<le> x \<Longrightarrow> 0 \<le> round_half_even x"
  by (simp add: round_half_even_def Let_def)

lemma pow2_pos: "0 < pow2 e"
  by (simp add: pow2_def)

lemma binary64_nonneg:
  assumes "0 \<le> x"
  shows "nonneg (binary64 x)"
proof (cases "x = 0")
  case True
  then show ?thesis by (simp add: binary64_def nonneg_def)
next
  case False
  with assms have pos: "0 < x" by simp
  define ulp where "ulp = pow2 (max (ilog2 \<bar>x\<bar>) (- 1022) - 52)"
  have "0 < ulp" unfolding ulp_def by (rule pow2_pos)
  with pos have "0 \<le> \<bar>x\<bar> / ulp" by simp
  then have "0 \<le> round_half_even (\<bar>x\<bar> / ulp)" by (rule round_half_even_nonneg)
  with \<open>0 < ulp\<close> have "0 \<le> of_int (round_half_even (\<bar>x\<bar> / ulp)) * ulp" by simp
  with pos show ?thesis
    by (simp add: binary64_def Let_def nonneg_def signed_inf_def ulp_def)
qed

lemma js_add_nonneg: "nonneg a \<Longrightarrow> 0 \<le> y \<Longrightarrow> nonneg (js_add a (Fin y))"
  by (cases a) (simp_all add: nonneg_def [of "Fin _"] nonneg_def [of NaN] nonneg_def [of NegInf]
      nonneg_def [of PosInf] binary64_nonneg)

lemma js_div_nonneg: "nonneg a \<Longrightarrow> 0 < d \<Longrightarrow> nonneg (js_div a (Fin d))"
  by (cases a) (simp_all add: nonneg_def [of "Fin _"] nonneg_def [of NaN] nonneg_def [of NegInf]
      nonneg_def [of PosInf] nonneg_def [of "signed_inf _"] binary64_nonneg signed_inf_def)

lemma js_mul_nonneg: "nonneg a \<Longrightarrow> 0 < c \<Longrightarrow> nonneg (js_mul a (Fin c))"
  by (cases a) (simp_all add: nonneg_def [of "Fin _"] nonneg_def [of NaN] nonneg_def [of NegInf]
      nonneg_def [of PosInf] nonneg_def [of "signed_inf _"] binary64_nonneg signed_inf_def)

lemma clamped_round_nonneg:
  assumes "nonneg a"
  shows "\<exists>k. Math_min (Fin 100) (Math_round a) = Fin (of_int k) \<and> 0 \<le> k \<and> k \<le> 100"
proof (cases a)
  case (Fin x)
  with assms have "0 \<le> x" by (simp add: nonneg_def)
  then have "0 \<le> \<lfloor>x + 1 / 2\<rfloor>" by simp
  then have "Math_min (Fin 100) (Math_round a) = Fin (of_int (min 100 \<lfloor>x + 1 / 2\<rfloor>)) \<and>
      0 \<le> min 100 \<lfloor>x + 1 / 2\<rfloor> \<and> min 100 \<lfloor>x + 1 / 2\<rfloor> \<le> 100"
    using Fin by (simp add: min_def)
  then show ?thesis by blast
next
  case PosInf
  then have "Math_min (Fin 100) (Math_round a) = Fin (of_int 100)" by simp
  then show ?thesis by force
qed (use assms in \<open>simp_all add: nonneg_def\<close>)

lemma sound_empty_tally: "sound_tally empty_tally"
  by (simp add: sound_tally_def empty_tally_def nonneg_def)

lemma sound_tally_step:
  assumes "sound_tally t" and "3 / 10 < y" and "y \<le> 1"
  shows "sound_tally \<lparr>acc_questionsCovered = acc_questionsCovered t @
                         [\<lparr>questionId = i, similarityScore = Fin y\<rparr>],
                      acc_totalSimilarity = js_add (acc_totalSimilarity t) (Fin y),
                      acc_questionCount = acc_questionCount t + 1\<rparr>"
proof -
  from assms(1) obtain ys where ys:
    "map similarityScore (acc_questionsCovered t) = map Fin ys"
    "\<forall>y \<in> set ys. 3 / 10 < y \<and> y \<le> 1"
    and total: "nonneg (acc_totalSimilarity t)"
    "acc_totalSimilarity t =
       foldl js_add (Fin 0) (map similarityScore (acc_questionsCovered t))"
    and n: "acc_questionCount t = length (acc_questionsCovered t)"
    unfolding sound_tally_def by blast
  let ?t = "\<lparr>acc_questionsCovered = acc_questionsCovered t @
                 [\<lparr>questionId = i, similarityScore = Fin y\<rparr>],
              acc_totalSimilarity = js_add (acc_totalSimilarity t) (Fin y),
              acc_questionCount = acc_questionCount t + 1\<rparr>"
  from ys assms(2,3) have "map similarityScore (acc_questionsCovered ?t) = map Fin (ys @ [y]) \<and>
      (\<forall>z \<in> set (ys @ [y]). 3 / 10 < z \<and> z \<le> 1)"
    by simp
  then have a: "\<exists>zs. map similarityScore (acc_questionsCovered ?t) = map Fin zs \<and>
      (\<forall>z \<in> set zs. 3 / 10 < z \<and> z \<le> 1)"
    by (rule exI)
  from total(1) assms(2) have b: "nonneg (acc_totalSimilarity ?t)"
    by (simp add: js_add_nonneg)
  from total(2) have c: "acc_totalSimilarity ?t =
      foldl js_add (Fin 0) (map similarityScore (acc_questionsCovered ?t))"
    by simp
  from n have d: "acc_questionCount ?t = length (acc_questionsCovered ?t)"
    by simp
  show ?thesis
    unfolding sound_tally_def by (intro conjI a b c d)
qed

lemma compareQuestions_sound:
  "sound_tally t \<Longrightarrow> sound_tally (fst (compareQuestions client lo qs (t, console, w)))"
proof (induction qs arbitrary: t console w)
  case Nil
  then show ?case by simp
next
  case (Cons q qs)
  obtain r w1 where c: "calculateSimilarity client (lo_description lo) (questionText q) w = (r, w1)"
    by (cases "calculateSimilarity client (lo_description lo) (questionText q) w")
  show ?case
  proof (cases r)
    case (Inl e)
    with c Cons show ?thesis by simp
  next
    case (Inr s)
    with c obtain y where y: "s = Fin y" "0 \<le> y" "y \<le> 1"
      by (auto dest: calculateSimilarity_range)
    show ?thesis
    proof (cases "3 / 10 < y")
      case True
      from sound_tally_step [OF Cons.prems True y(3)] c Inr y True show ?thesis
        by (simp add: Cons.IH)
    next
      case False
      with c Inr y Cons show ?thesis by simp
    qed
  qed
qed

lemma percentage_of_sound:
  assumes "sound_tally t"
  shows "percentage_of t =
           (if acc_questionsCovered t = [] then Fin 0
            else Math_min (Fin 100)
                   (Math_round
                      (js_mul (js_mean (map similarityScore (acc_questionsCovered t)))
                         (Fin 100))))"
proof -
  from assms have total: "acc_totalSimilarity t =
       foldl js_add (Fin 0) (map similarityScore (acc_questionsCovered t))"
    and n: "acc_questionCount t = length (acc_questionsCovered t)"
    unfolding sound_tally_def by blast+
  show ?thesis
  proof (cases "acc_questionsCovered t = []")
    case True
    with n show ?thesis by (simp add: percentage_of_def binary64_def)
  next
    case False
    with n total show ?thesis by (simp add: percentage_of_def js_mean_def)
  qed
qed

lemma percentage_of_range:
  assumes "sound_tally t"
  shows "\<exists>k. percentage_of t = Fin (of_int k) \<and> 0 \<le> k \<and> k \<le> 100 \<and>
              (acc_questionsCovered t = [] \<longrightarrow> k = 0)"
proof (cases "acc_questionsCovered t = []")
  case True
  with percentage_of_sound [OF assms] have "percentage_of t = Fin (of_int 0)" by simp
  with True show ?thesis by force
next
  case False
  from assms have total: "nonneg (acc_totalSimilarity t)"
    and n: "acc_questionCount t = length (acc_questionsCovered t)"
    unfolding sound_tally_def by blast+
  from False n have pos: "0 < real (acc_questionCount t)" by simp
  have "nonneg (js_mul (js_div (acc_totalSimilarity t) (Fin (real (acc_questionCount t))))
      (Fin 100))"
    by (intro js_mul_nonneg js_div_nonneg total pos) simp
  from clamped_round_nonneg [OF this] pos False show ?thesis
    by (simp add: percentage_of_def)
qed

lemma analyzeOutcomes_append:
  "analyzeOutcomes client clock moduleId questionIds tag qs los (covs, console, w) =
     (case analyzeOutcomes client clock moduleId questionIds tag qs los ([], console, w) of
        (fresh, console', w') \<Rightarrow> (covs @ fresh, console', w'))"
proof (induction los arbitrary: covs console w)
  case Nil
  then show ?case by simp
next
  case (Cons lo los)
  obtain t c1 w1 where cq: "compareQuestions client lo qs (empty_tally, console, w) = (t, c1, w1)"
    by (cases "compareQuestions client lo qs (empty_tally, console, w)")
  define r where "r = \<lparr>cov_moduleId = moduleId, cov_loId = lo_loId lo,
      coveragePercentage = percentage_of t, status = status_of (percentage_of t),
      questionsCovered = acc_questionsCovered t, analyzedAt = clock w1,
      analysisTag = scope_of tag, questionCount = length qs, analyzedQuestions = questionIds\<rparr>"
  have step: "analyzeOutcomes client clock moduleId questionIds tag qs (lo # los) (cs, console, w) =
      analyzeOutcomes client clock moduleId questionIds tag qs los (cs @ [r], c1, w1)" for cs
    using cq by (simp add: r_def Let_def)
  show ?case
    by (simp only: step)
       (simp add: Cons.IH [of "covs @ [r]"] Cons.IH [of "[r]"] split: prod.splits)
qed

lemma analyzeOutcomes_Cons:
  "analyzeOutcomes client clock moduleId questionIds tag qs (lo # los) (covs, console, w) =
     (case compareQuestions client lo qs (empty_tally, console, w) of
        (t, console', w') \<Rightarrow>
          analyzeOutcomes client clock moduleId questionIds tag qs los
            (covs @ [report_of clock moduleId questionIds tag qs lo (t, console', w')],
             console', w'))"
  by (simp add: report_of_def Let_def split: prod.splits)

lemma analyzeOutcomes_fresh:
  "fst (analyzeOutcomes client clock moduleId questionIds tag qs (lo # los) ([], console, w)) =
     (case compareQuestions client lo qs (empty_tally, console, w) of
        (t, console', w') \<Rightarrow>
          report_of clock moduleId questionIds tag qs lo (t, console', w') #
          fst (analyzeOutcomes client clock moduleId questionIds tag qs los ([], console', w')))"
proof -
  obtain t c1 w1 where cq: "compareQuestions client lo qs (empty_tally, console, w) = (t, c1, w1)"
    by (cases "compareQuestions client lo qs (empty_tally, console, w)")
  let ?r = "report_of clock moduleId questionIds tag qs lo (t, c1, w1)"
  have "fst (analyzeOutcomes client clock moduleId questionIds tag qs (lo # los) ([], console, w))
          = fst (analyzeOutcomes client clock moduleId questionIds tag qs los ([?r], c1, w1))"
    using cq by (simp only: analyzeOutcomes_Cons) simp
  also have "\<dots> = ?r # fst (analyzeOutcomes client clock moduleId questionIds tag qs los ([], c1, w1))"
    by (subst analyzeOutcomes_append) (simp split: prod.splits)
  finally show ?thesis using cq by simp
qed

lemma analyzeOutcomes_reports:
  "r \<in> set (fst (analyzeOutcomes client clock moduleId questionIds tag qs los ([], console, w)))
   \<Longrightarrow> \<exists>lo c0 w0. lo \<in> set los \<and>
         r = report_of clock moduleId questionIds tag qs lo
               (compareQuestions client lo qs (empty_tally, c0, w0))"
proof (induction los arbitrary: console w)
  case Nil
  then show ?case by simp
next
  case (Cons lo los)
  obtain t c1 w1 where cq: "compareQuestions client lo qs (empty_tally, console, w) = (t, c1, w1)"
    by (cases "compareQuestions client lo qs (empty_tally, console, w)")
  let ?r = "report_of clock moduleId questionIds tag qs lo (t, c1, w1)"
  let ?fresh = "fst (analyzeOutcomes client clock moduleId questionIds tag qs los ([], c1, w1))"
  from Cons.prems cq have "r = ?r \<or> r \<in> set ?fresh"
    by (simp add: analyzeOutcomes_fresh del: analyzeOutcomes.simps)
  then show ?case
  proof
    assume "r = ?r"
    with cq show ?thesis by (metis list.set_intros(1))
  next
    assume "r \<in> set ?fresh"
    from Cons.IH [OF this] show ?thesis by (metis list.set_intros(2))
  qed
qed


lemma runCoverageAnalysis_noop:
  "\<not> proceeds db moduleId questionIds \<Longrightarrow>
   \<exists>line. runCoverageAnalysis client clock moduleId questionIds tag (db, console, w) =
     (db, console @ [line], w)"
  by (auto simp: runCoverageAnalysis_def proceeds_def Let_def split: option.splits)

lemma runCoverageAnalysis_coverages:
  "proceeds db moduleId questionIds \<Longrightarrow>
   fst (runCoverageAnalysis client clock moduleId questionIds tag (db, console, w)) =
     db\<lparr>coverages := deletePrior moduleId tag (coverages db) @
            newReports client clock moduleId questionIds tag (db, console, w)\<rparr>"
  by (auto simp: runCoverageAnalysis_def proceeds_def newReports_def Let_def
        analyzeOutcomes_append [of _ _ _ _ _ _ _ "deletePrior _ _ _"]
        split: option.splits prod.splits)

section \<open>The reports of a run\<close>

lemma newReports_report:
  assumes "r \<in> set (newReports client clock moduleId questionIds tag (db, console, w))"
  obtains m lo c0 w0 where
    "modules db moduleId = Some m" and "lo \<in> set (learningOutcomes m)" and
    "r = report_of clock moduleId questionIds tag (resolveQuestions db moduleId questionIds) lo
           (compareQuestions client lo (resolveQuestions db moduleId questionIds)
              (empty_tally, c0, w0))"
proof -
  from assms obtain m where m: "modules db moduleId = Some m"
    by (cases "modules db moduleId") (auto simp: newReports_def)
  with assms have
    "r \<in> set (fst (analyzeOutcomes client clock moduleId questionIds tag
                     (resolveQuestions db moduleId questionIds) (learningOutcomes m)
                     ([], console, w)))"
    by (auto simp: newReports_def split: if_splits)
  from analyzeOutcomes_reports [OF this] m that show thesis by blast
qed

lemma report_of_fields:
  "compareQuestions client lo qs s = (t, c, w) \<Longrightarrow>
   cov_moduleId (report_of clock moduleId questionIds tag qs lo (compareQuestions client lo qs s))
     = moduleId \<and>
   cov_loId (report_of clock moduleId questionIds tag qs lo (compareQuestions client lo qs s))
     = lo_loId lo \<and>
   coveragePercentage (report_of clock moduleId questionIds tag qs lo (compareQuestions client lo qs s))
     = percentage_of t \<and>
   status (report_of clock moduleId questionIds tag qs lo (compareQuestions client lo qs s))
     = status_of (percentage_of t) \<and>
   questionsCovered (report_of clock moduleId questionIds tag qs lo (compareQuestions client lo qs s))
     = acc_questionsCovered t \<and>
   analysisTag (report_of clock moduleId questionIds tag qs lo (compareQuestions client lo qs s))
     = scope_of tag \<and>
   questionCount (report_of clock moduleId questionIds tag qs lo (compareQuestions client lo qs s))
     = length qs \<and>
   analyzedQuestions (report_of clock moduleId questionIds tag qs lo (compareQuestions client lo qs s))
     = questionIds"
  by (simp add: report_of_def)

lemma newReports_sound:
  assumes "r \<in> set (newReports client clock moduleId questionIds tag (db, console, w))"
  obtains t where
    "sound_tally t" and
    "questionsCovered r = acc_questionsCovered t" and
    "coveragePercentage r = percentage_of t" and
    "status r = status_of (coveragePercentage r)"
proof -
  from assms obtain m lo c0 w0 where
    r: "r = report_of clock moduleId questionIds tag (resolveQuestions db moduleId questionIds) lo
           (compareQuestions client lo (resolveQuestions db moduleId questionIds)
              (empty_tally, c0, w0))"
    by (rule newReports_report)
  let ?qs = "resolveQuestions db moduleId questionIds"
  obtain t c1 w1 where cq: "compareQuestions client lo ?qs (empty_tally, c0, w0) = (t, c1, w1)"
    by (cases "compareQuestions client lo ?qs (empty_tally, c0, w0)")
  have "sound_tally t"
    using compareQuestions_sound [OF sound_empty_tally, of client lo ?qs c0 w0] cq by simp
  moreover from report_of_fields [OF cq] r have
    "questionsCovered r = acc_questionsCovered t"
    "coveragePercentage r = percentage_of t"
    "status r = status_of (coveragePercentage r)"
    by simp_all
  ultimately show thesis by (rule that)
qed


lemma newReports_in_scope:
  assumes "r \<in> set (newReports client clock moduleId questionIds tag (db, console, w))"
  shows "cov_moduleId r = moduleId \<and> analysisTag r = scope_of tag \<and>
         analyzedQuestions r = questionIds \<and>
         questionCount r = length (resolveQuestions db moduleId questionIds)"
proof -
  from assms obtain m lo c0 w0 where
    r: "r = report_of clock moduleId questionIds tag (resolveQuestions db moduleId questionIds) lo
           (compareQuestions client lo (resolveQuestions db moduleId questionIds)
              (empty_tally, c0, w0))"
    by (rule newReports_report)
  then show ?thesis by (simp add: report_of_def split: prod.splits)
qed

text \<open>
  The reports of a run are what the run adds to the store: every report that is in the
  store after the run and was not there before is one of them.
\<close>

lemma newReports_are_saved:
  assumes "r \<in> set (coverages (fst (runCoverageAnalysis client clock moduleId questionIds tag
                                      (db, console, w))))"
    and "r \<notin> set (coverages db)"
  shows "r \<in> set (newReports client clock moduleId questionIds tag (db, console, w))"
proof (cases "proceeds db moduleId questionIds")
  case True
  from runCoverageAnalysis_coverages [OF True, of client clock tag console w] assms
  show ?thesis by (auto simp: deletePrior_def split: if_splits)
next
  case False
  from runCoverageAnalysis_noop [OF False, of client clock tag console w] assms
  show ?thesis by auto
qed

lemma newReports_noop: "\<not> proceeds db moduleId questionIds \<Longrightarrow>
  newReports client clock moduleId questionIds tag (db, console, w) = []"
  by (simp add: newReports_def split: option.splits)

section \<open>The concrete runs, evaluated\<close>

text \<open>Rounding a given number is a matter of evaluation.\<close>

lemma bitlen_numeral: "bitlen (numeral n) = bitlen (numeral n div 2) + 1"
  by (subst compute_bitlen) simp

lemma bitlen_one: "bitlen 1 = 1"
  by (subst compute_bitlen) simp

lemmas binary64_eval = binary64_def ilog2_def round_half_even_def pow2_def signed_inf_def
  Let_def bitlen_numeral bitlen_one

lemma binary64_decimals:
  "binary64 (8 / 10) = Fin (3602879701896397 / 4503599627370496)"
  "binary64 (5 / 10) = Fin (1 / 2)"
  "binary64 (1 / 10) = Fin (3602879701896397 / 36028797018963968)"
  "binary64 (3 / 10) = Fin (5404319552844595 / 18014398509481984)"
  "binary64 (31 / 100) = Fin (5584463537939415 / 18014398509481984)"
  "binary64 (9 / 10) = Fin (8106479329266893 / 9007199254740992)"
  "binary64 (4 / 10) = Fin (3602879701896397 / 9007199254740992)"
  "binary64 (35 / 100) = Fin (3152519739159347 / 9007199254740992)"
  by (simp_all add: binary64_eval)

text \<open>
  The literal \<open>0.3\<close> is the first of these two neighbouring binary64 values, and 3/10 lies
  between them.
\<close>

lemma threshold_neighbours:
  "binary64 (3 / 10) = Fin (5404319552844595 / 18014398509481984)"
  "5404319552844595 / 18014398509481984 < (3 / 10 :: real)"
  "(3 / 10 :: real) < 5404319552844596 / 18014398509481984"
  by (simp_all add: binary64_eval)

lemmas run_defs = binary64_eval newReports_def proceeds_def resolveQuestions_def calculateSimilarity_def
  scripted_def percentage_of_def status_of_def scope_of_def empty_tally_def Let_def
  cs101_def cs101_module_def cs101_LO1_def cs101_question_def cs101_script_def
  runCoverageAnalysis_def deletePrior_def

lemma cs101_newReports:
  "newReports scripted scripted_clock 1 None None (cs101, [], cs101_script) =
     [cs101_LO1_report, cs101_LO2_report]"
  by (simp add: run_defs scripted_clock_def cs101_LO1_report_def cs101_LO2_report_def)

lemmas faulty_defs = run_defs faulty_script_def scripted_clock_def faulty_LO1_report_def
  faulty_LO2_report_def

lemma faulty_newReports:
  "newReports scripted scripted_clock 1 None None (cs101, [], faulty_script) =
     [faulty_LO1_report, faulty_LO2_report]"
  by (simp add: faulty_defs)

lemma faulty_run:
  "runCoverageAnalysis scripted scripted_clock 1 None None (cs101, [], faulty_script) =
     (cs101\<lparr>coverages := [faulty_LO1_report, faulty_LO2_report]\<rparr>,
      [ErrorCalculatingSimilarity 12 (Error ''Failed to calculate similarity: timeout''),
       ErrorCalculatingSimilarity 11 (Error ''Failed to calculate similarity: timeout''),
       AnalysisCompleted 1], [])"
  by (simp add: faulty_defs)

lemma cs101_distinct: "distinct (map q_id (questions cs101))"
  by (simp add: cs101_def cs101_question_def)

lemma cs101_analyzed_run:
  "runCoverageAnalysis scripted scripted_clock 1 None None (cs101_analyzed, [], cs101_script) =
     (cs101_analyzed\<lparr>coverages := [earlier_report 1 (Some ''midterm''), earlier_report 2 None,
                                     cs101_LO1_report, cs101_LO2_report]\<rparr>,
      [AnalysisCompleted 1], [])"
  by (simp add: run_defs scripted_clock_def cs101_LO1_report_def cs101_LO2_report_def
        cs101_analyzed_def earlier_report_def)

section \<open>The coverage percentage\<close>

text \<open>
  The arithmetic is that of the run. Two covered scores of 0.35 and 0.8 have the mean
  0.575 in exact arithmetic, which would round to 58; the run adds them to
  1.15 rounded, halves that and multiplies by 100, gets a number just below 57.5, and
  saves 57. A single score of 0.695 gives 70, and the four scores below give 69.
\<close>

lemma rounded_percentages:
  "Math_min (Fin 100)
     (Math_round (js_mul (js_mean [binary64 (35 / 100), binary64 (8 / 10)]) (Fin 100))) = Fin 57"
  "Math_min (Fin 100)
     (Math_round (js_mul (js_mean [binary64 (695 / 1000)]) (Fin 100))) = Fin 70"
  "Math_min (Fin 100)
     (Math_round
        (js_mul (js_mean [binary64 (57 / 100), binary64 (69 / 100), binary64 (76 / 100),
                          binary64 (76 / 100)]) (Fin 100))) = Fin 69"
  by (simp_all add: js_mean_def binary64_eval)



section \<open>The status\<close>

lemma status_of_integer:
  "status_of (Fin (of_int n)) =
     (if 70 \<le> n then Covered else if 30 \<le> n then Partially_Covered else Not_Covered)"
  by (simp add: status_of_def)

text \<open>
  C3. For every report a run saves, the percentage is an integer from 0 to 100 and the
  status follows from it: Covered from 70 on, Partially Covered from 30 to 69, Not Covered
  below 30; without a covered question the percentage is 0 and the status Not Covered.
  Exactly 30 is Partially Covered, exactly 70 Covered, and 69 Partially Covered.
\<close>

theorem status_follows_percentage:
  "(r \<in> set (newReports client clock moduleId questionIds tag (db, console, w)) \<longrightarrow>
      (\<exists>n. coveragePercentage r = Fin (of_int n) \<and> 0 \<le> n \<and> n \<le> 100 \<and>
            status r =
              (if 70 \<le> n then Covered else if 30 \<le> n then Partially_Covered else Not_Covered) \<and>
            (questionsCovered r = [] \<longrightarrow> n = 0 \<and> status r = Not_Covered))) \<and>
   status_of (Fin 30) = Partially_Covered \<and>
   status_of (Fin 70) = Covered \<and>
   status_of (Fin 69) = Partially_Covered \<and>
   status_of (Fin 29) = Not_Covered"
proof -
  have "\<exists>n. coveragePercentage r = Fin (of_int n) \<and> 0 \<le> n \<and> n \<le> 100 \<and>
            status r =
              (if 70 \<le> n then Covered else if 30 \<le> n then Partially_Covered else Not_Covered) \<and>
            (questionsCovered r = [] \<longrightarrow> n = 0 \<and> status r = Not_Covered)"
    if mem: "r \<in> set (newReports client clock moduleId questionIds tag (db, console, w))"
  proof -
    from mem obtain t where t: "sound_tally t"
      "questionsCovered r = acc_questionsCovered t"
      "coveragePercentage r = percentage_of t"
      "status r = status_of (coveragePercentage r)"
      by (rule newReports_sound)
    from percentage_of_range [OF t(1)] obtain k where k:
      "percentage_of t = Fin (of_int k)" "0 \<le> k" "k \<le> 100"
      "acc_questionsCovered t = [] \<longrightarrow> k = 0"
      by blast
    from k(1) t(3) have p: "coveragePercentage r = Fin (of_int k)" by simp
    show ?thesis
      by (rule exI [of _ k])
         (use k t(2) in \<open>auto simp: p t(4) status_of_integer status_of_integer [of 0, simplified]\<close>)
  qed
  then show ?thesis by (simp add: status_of_def)
qed

theorem status_follows_percentage_witness:
  "cs101_LO1_report \<in>
     set (newReports scripted scripted_clock 1 None None (cs101, [], cs101_script)) \<and>
   coveragePercentage cs101_LO1_report = Fin 65 \<and>
   status cs101_LO1_report = Partially_Covered \<and>
   (\<exists>n. coveragePercentage cs101_LO1_report = Fin (of_int n) \<and> 0 \<le> n \<and> n \<le> 100 \<and>
         status cs101_LO1_report =
           (if 70 \<le> n then Covered else if 30 \<le> n then Partially_Covered else Not_Covered) \<and>
         (questionsCovered cs101_LO1_report = [] \<longrightarrow>
            n = 0 \<and> status cs101_LO1_report = Not_Covered))"
proof -
  have mem: "cs101_LO1_report \<in>
      set (newReports scripted scripted_clock 1 None None (cs101, [], cs101_script))"
    unfolding cs101_newReports by simp
  have a: "coveragePercentage cs101_LO1_report = Fin 65"
    and b: "status cs101_LO1_report = Partially_Covered"
    by (simp_all add: cs101_LO1_report_def)
  from status_follows_percentage [of cs101_LO1_report scripted scripted_clock 1 None None
      cs101 "[]" cs101_script] mem
  have "\<exists>n. coveragePercentage cs101_LO1_report = Fin (of_int n) \<and> 0 \<le> n \<and> n \<le> 100 \<and>
         status cs101_LO1_report =
           (if 70 \<le> n then Covered else if 30 \<le> n then Partially_Covered else Not_Covered) \<and>
         (questionsCovered cs101_LO1_report = [] \<longrightarrow>
            n = 0 \<and> status cs101_LO1_report = Not_Covered)"
    by blast
  with mem a b show ?thesis by blast
qed

text \<open>
  The schema of the reports accepts a percentage from 0 to 100 and similarity scores from
  0 to 1: every report of a run is within these bounds, so saving it does not fail on them.
\<close>

lemma newReports_within_schema:
  assumes "r \<in> set (newReports client clock moduleId questionIds tag (db, console, w))"
  shows "js_ge (coveragePercentage r) (Fin 0) \<and> js_ge (Fin 100) (coveragePercentage r) \<and>
         (\<forall>c \<in> set (questionsCovered r).
            js_ge (similarityScore c) (Fin 0) \<and> js_ge (Fin 1) (similarityScore c))"
proof -
  from assms obtain t where t: "sound_tally t"
    "questionsCovered r = acc_questionsCovered t"
    "coveragePercentage r = percentage_of t"
    by (rule newReports_sound)
  from percentage_of_range [OF t(1)] t(3)
  have p: "js_ge (coveragePercentage r) (Fin 0) \<and> js_ge (Fin 100) (coveragePercentage r)"
    by auto
  from t(1,2) obtain ys where ys:
    "map similarityScore (questionsCovered r) = map Fin ys"
    "\<forall>y \<in> set ys. 3 / 10 < y \<and> y \<le> 1"
    unfolding sound_tally_def by auto
  have "js_ge (similarityScore c) (Fin 0) \<and> js_ge (Fin 1) (similarityScore c)"
    if "c \<in> set (questionsCovered r)" for c
  proof -
    from that have "similarityScore c \<in> set (map similarityScore (questionsCovered r))"
      by simp
    then obtain y where "similarityScore c = Fin y" "y \<in> set ys"
      unfolding ys(1) by auto
    with ys(2) show ?thesis by auto
  qed
  with p show ?thesis by blast
qed

section \<open>The relevance threshold\<close>

lemma counted_Some:
  "counted (q, r) = Some e \<longleftrightarrow>
     (\<exists>s. r = Inr s \<and> js_gt s (Fin (3 / 10)) \<and> e = \<lparr>questionId = q_id q, similarityScore = s\<rparr>)"
  by (cases r) auto

lemma in_counted_iff:
  assumes "length outs = length qs"
  shows "e \<in> set (List.map_filter counted (zip qs outs)) \<longleftrightarrow>
     (\<exists>j < length qs. \<exists>s. outs ! j = Inr s \<and> js_gt s (Fin (3 / 10)) \<and>
        e = \<lparr>questionId = q_id (qs ! j), similarityScore = s\<rparr>)"
  using assms by (auto simp: in_set_map_filter set_zip counted_Some)

lemma covered_entry_iff:
  assumes d: "distinct (map q_id qs)" and i: "i < length qs" and l: "length outs = length qs"
    and range: "\<And>v. Inr v \<in> set outs \<Longrightarrow> \<exists>y. v = Fin y \<and> 0 \<le> y \<and> y \<le> 1"
  shows "\<lparr>questionId = q_id (qs ! i), similarityScore = s\<rparr>
           \<in> set (List.map_filter counted (zip qs outs)) \<longleftrightarrow>
         (\<exists>y. s = Fin y \<and> 3 / 10 < y \<and> outs ! i = Inr (Fin y))"
proof
  assume "\<lparr>questionId = q_id (qs ! i), similarityScore = s\<rparr>
            \<in> set (List.map_filter counted (zip qs outs))"
  then obtain j s' where j: "j < length qs" "outs ! j = Inr s'" "js_gt s' (Fin (3 / 10))"
    "\<lparr>questionId = q_id (qs ! i), similarityScore = s\<rparr> =
     \<lparr>questionId = q_id (qs ! j), similarityScore = s'\<rparr>"
    unfolding in_counted_iff [OF l] by blast
  from j(4) have eq: "q_id (qs ! i) = q_id (qs ! j)" "s = s'" by simp_all
  from eq(1) i j(1) d have "i = j"
    by (metis length_map nth_eq_iff_index_eq nth_map)
  with j eq have o: "outs ! i = Inr s" "js_gt s (Fin (3 / 10))" by simp_all
  from o(1) i l have "Inr s \<in> set outs" by (metis nth_mem)
  from range [OF this] obtain y where "s = Fin y" by blast
  with o show "\<exists>y. s = Fin y \<and> 3 / 10 < y \<and> outs ! i = Inr (Fin y)" by simp
next
  assume "\<exists>y. s = Fin y \<and> 3 / 10 < y \<and> outs ! i = Inr (Fin y)"
  then obtain y where "s = Fin y" "3 / 10 < y" "outs ! i = Inr (Fin y)" by blast
  with i show "\<lparr>questionId = q_id (qs ! i), similarityScore = s\<rparr>
            \<in> set (List.map_filter counted (zip qs outs))"
    unfolding in_counted_iff [OF l] by auto
qed

lemma covered_id_iff:
  assumes d: "distinct (map q_id qs)" and i: "i < length qs" and l: "length outs = length qs"
    and range: "\<And>v. Inr v \<in> set outs \<Longrightarrow> \<exists>y. v = Fin y \<and> 0 \<le> y \<and> y \<le> 1"
  shows "q_id (qs ! i) \<in> questionId ` set (List.map_filter counted (zip qs outs)) \<longleftrightarrow>
         (\<exists>y. 3 / 10 < y \<and> outs ! i = Inr (Fin y))"
proof
  assume "q_id (qs ! i) \<in> questionId ` set (List.map_filter counted (zip qs outs))"
  then obtain e where e: "e \<in> set (List.map_filter counted (zip qs outs))"
    "questionId e = q_id (qs ! i)" by auto
  have "\<lparr>questionId = q_id (qs ! i), similarityScore = similarityScore e\<rparr> = e"
    using e(2) by (cases e) simp
  with e(1) have "\<lparr>questionId = q_id (qs ! i), similarityScore = similarityScore e\<rparr>
      \<in> set (List.map_filter counted (zip qs outs))"
    by (simp only:)
  then show "\<exists>y. 3 / 10 < y \<and> outs ! i = Inr (Fin y)"
    using covered_entry_iff [OF d i l range] by blast
next
  assume "\<exists>y. 3 / 10 < y \<and> outs ! i = Inr (Fin y)"
  then obtain y where "3 / 10 < y" "outs ! i = Inr (Fin y)" by blast
  then have "\<lparr>questionId = q_id (qs ! i), similarityScore = Fin y\<rparr>
      \<in> set (List.map_filter counted (zip qs outs))"
    using covered_entry_iff [OF d i l range] by blast
  then show "q_id (qs ! i) \<in> questionId ` set (List.map_filter counted (zip qs outs))"
    by force
qed

lemma distinct_resolveQuestions:
  "distinct (map q_id (questions db)) \<Longrightarrow>
   distinct (map q_id (resolveQuestions db moduleId questionIds))"
  by (auto simp: resolveQuestions_def distinct_map_filter split: option.splits)

text \<open>
  C2. For every report a run saves there is the learning outcome it is about and the world
  in which its loop over the questions began, such that a question of the run is among
  the covered ones, with its score, if and only if \<open>calculateSimilarity\<close> gave it a score
  strictly above 0.3; a score of exactly 0.3 does not count. Question ids are unique in
  the store.
\<close>

theorem covered_iff_above_threshold:
  assumes "r \<in> set (newReports client clock moduleId questionIds tag (db, console, w))"
    and "distinct (map q_id (questions db))"
    and "qs = resolveQuestions db moduleId questionIds"
  shows "\<exists>m lo w0. modules db moduleId = Some m \<and> lo \<in> set (learningOutcomes m) \<and>
      cov_loId r = lo_loId lo \<and>
      (\<forall>c \<in> set (questionsCovered r). \<exists>i < length qs. questionId c = q_id (qs ! i)) \<and>
      (\<forall>i < length qs. \<forall>s.
          \<lparr>questionId = q_id (qs ! i), similarityScore = s\<rparr> \<in> set (questionsCovered r) \<longleftrightarrow>
          (\<exists>y. s = Fin y \<and> 3 / 10 < y \<and> outcomes client lo qs w0 ! i = Inr (Fin y))) \<and>
      (\<forall>i < length qs.
          q_id (qs ! i) \<in> questionId ` set (questionsCovered r) \<longleftrightarrow>
          (\<exists>y. 3 / 10 < y \<and> outcomes client lo qs w0 ! i = Inr (Fin y))) \<and>
      (\<forall>i < length qs.
          outcomes client lo qs w0 ! i = Inr (Fin (3 / 10)) \<longrightarrow>
          q_id (qs ! i) \<notin> questionId ` set (questionsCovered r))"
proof -
  from assms(1) obtain m lo c0 w0 where
    m: "modules db moduleId = Some m" and lo: "lo \<in> set (learningOutcomes m)" and
    r: "r = report_of clock moduleId questionIds tag qs lo
           (compareQuestions client lo qs (empty_tally, c0, w0))"
    unfolding assms(3) by (rule newReports_report)
  let ?outs = "outcomes client lo qs w0"
  obtain t c1 w1 where cq: "compareQuestions client lo qs (empty_tally, c0, w0) = (t, c1, w1)"
    by (cases "compareQuestions client lo qs (empty_tally, c0, w0)")
  from report_of_fields [OF cq] r have id: "cov_loId r = lo_loId lo"
    and "questionsCovered r = acc_questionsCovered t" by simp_all
  with compareQuestions_covered [of client lo qs empty_tally c0 w0] cq
  have qc: "questionsCovered r = List.map_filter counted (zip qs ?outs)"
    by (simp add: empty_tally_def)
  have d: "distinct (map q_id qs)"
    unfolding assms(3) using assms(2) by (rule distinct_resolveQuestions)
  have l: "length ?outs = length qs" by (rule length_outcomes)
  have range: "\<exists>y. v = Fin y \<and> 0 \<le> y \<and> y \<le> 1" if "Inr v \<in> set ?outs" for v
    using that by (rule outcomes_range)
  have from_qs: "\<forall>c \<in> set (questionsCovered r). \<exists>i < length qs. questionId c = q_id (qs ! i)"
  proof
    fix c
    assume "c \<in> set (questionsCovered r)"
    then obtain j s where "j < length qs"
      "c = \<lparr>questionId = q_id (qs ! j), similarityScore = s\<rparr>"
      using in_counted_iff [OF l, of c] qc by auto
    then show "\<exists>i < length qs. questionId c = q_id (qs ! i)" by auto
  qed
  have entry: "\<forall>i < length qs. \<forall>s.
          \<lparr>questionId = q_id (qs ! i), similarityScore = s\<rparr> \<in> set (questionsCovered r) \<longleftrightarrow>
          (\<exists>y. s = Fin y \<and> 3 / 10 < y \<and> ?outs ! i = Inr (Fin y))"
    unfolding qc using covered_entry_iff [OF d _ l range] by blast
  have ids: "\<forall>i < length qs.
          q_id (qs ! i) \<in> questionId ` set (questionsCovered r) \<longleftrightarrow>
          (\<exists>y. 3 / 10 < y \<and> ?outs ! i = Inr (Fin y))"
    unfolding qc using covered_id_iff [OF d _ l range] by blast
  have exact: "\<forall>i < length qs.
          ?outs ! i = Inr (Fin (3 / 10)) \<longrightarrow>
          q_id (qs ! i) \<notin> questionId ` set (questionsCovered r)"
    using ids by auto
  from m lo id from_qs entry ids exact show ?thesis by blast
qed

theorem covered_iff_above_threshold_witness:
  "faulty_LO1_report \<in>
     set (newReports scripted scripted_clock 1 None None (cs101, [], faulty_script)) \<and>
   distinct (map q_id (questions cs101)) \<and>
   questionsCovered faulty_LO1_report = [\<lparr>questionId = 13, similarityScore = binary64 (31 / 100)\<rparr>] \<and>
   (\<exists>m lo w0. modules cs101 1 = Some m \<and> lo \<in> set (learningOutcomes m) \<and>
      cov_loId faulty_LO1_report = lo_loId lo \<and>
      (\<forall>i < length (resolveQuestions cs101 1 None).
          q_id (resolveQuestions cs101 1 None ! i)
            \<in> questionId ` set (questionsCovered faulty_LO1_report) \<longleftrightarrow>
          (\<exists>y. 3 / 10 < y \<and>
             outcomes scripted lo (resolveQuestions cs101 1 None) w0 ! i = Inr (Fin y))))"
proof -
  have mem: "faulty_LO1_report \<in>
      set (newReports scripted scripted_clock 1 None None (cs101, [], faulty_script))"
    unfolding faulty_newReports by simp
  have c: "questionsCovered faulty_LO1_report =
      [\<lparr>questionId = 13, similarityScore = binary64 (31 / 100)\<rparr>]"
    by (simp add: faulty_LO1_report_def)
  from covered_iff_above_threshold [OF mem cs101_distinct refl]
  have "\<exists>m lo w0. modules cs101 1 = Some m \<and> lo \<in> set (learningOutcomes m) \<and>
      cov_loId faulty_LO1_report = lo_loId lo \<and>
      (\<forall>i < length (resolveQuestions cs101 1 None).
          q_id (resolveQuestions cs101 1 None ! i)
            \<in> questionId ` set (questionsCovered faulty_LO1_report) \<longleftrightarrow>
          (\<exists>y. 3 / 10 < y \<and>
             outcomes scripted lo (resolveQuestions cs101 1 None) w0 ! i = Inr (Fin y)))"
    by blast
  with mem cs101_distinct c show ?thesis by blast
qed

section \<open>Failures of the similarity service\<close>








section \<open>Scopes\<close>

lemma deletePrior_scope:
  "deletePrior moduleId tag covs =
     filter (\<lambda>r. \<not> (cov_moduleId r = moduleId \<and> analysisTag r = scope_of tag)) covs"
  by (simp add: deletePrior_def scope_of_def)

text \<open>
  C4. The scope of a run is its tag, or the default scope for a null or empty tag. A run
  leaves every report outside the scope of its module as it was. A run that gets past its
  early returns removes all earlier reports of the module in that scope: afterwards the
  reports in the scope are exactly the ones this run saved, appended to the untouched
  ones. A run that returns early changes no report. Modules and questions are never
  changed.
\<close>

theorem supersede_touches_own_scope_only:
  assumes "runCoverageAnalysis client clock moduleId questionIds tag (db, console, w) =
             (db', console', w')"
  shows "filter (\<lambda>r. \<not> (cov_moduleId r = moduleId \<and> analysisTag r = scope_of tag)) (coverages db')
           = filter (\<lambda>r. \<not> (cov_moduleId r = moduleId \<and> analysisTag r = scope_of tag))
               (coverages db) \<and>
         (proceeds db moduleId questionIds \<longrightarrow>
            coverages db' =
              filter (\<lambda>r. \<not> (cov_moduleId r = moduleId \<and> analysisTag r = scope_of tag))
                (coverages db) @
              newReports client clock moduleId questionIds tag (db, console, w) \<and>
            filter (\<lambda>r. cov_moduleId r = moduleId \<and> analysisTag r = scope_of tag) (coverages db')
              = newReports client clock moduleId questionIds tag (db, console, w)) \<and>
         (\<not> proceeds db moduleId questionIds \<longrightarrow> coverages db' = coverages db) \<and>
         modules db' = modules db \<and> questions db' = questions db"
proof (cases "proceeds db moduleId questionIds")
  case True
  let ?new = "newReports client clock moduleId questionIds tag (db, console, w)"
  let ?P = "\<lambda>r. cov_moduleId r = moduleId \<and> analysisTag r = scope_of tag"
  from runCoverageAnalysis_coverages [OF True, of client clock tag console w] assms
  have db': "db' = db\<lparr>coverages := filter (\<lambda>r. \<not> ?P r) (coverages db) @ ?new\<rparr>"
    by (simp add: deletePrior_scope)
  have all: "\<forall>r \<in> set ?new. ?P r"
    using newReports_in_scope [of _ client clock moduleId questionIds tag db console w] by blast
  then have "filter ?P ?new = ?new" "filter (\<lambda>r. \<not> ?P r) ?new = []"
    by (simp_all add: filter_empty_conv)
  with True db' show ?thesis by simp
next
  case False
  from runCoverageAnalysis_noop [OF False, of client clock tag console w] assms
  have "db' = db" by auto
  with False show ?thesis by simp
qed

theorem supersede_touches_own_scope_only_witness:
  "runCoverageAnalysis scripted scripted_clock 1 None None (cs101_analyzed, [], cs101_script) =
     (cs101_analyzed\<lparr>coverages := [earlier_report 1 (Some ''midterm''), earlier_report 2 None,
                                     cs101_LO1_report, cs101_LO2_report]\<rparr>,
      [AnalysisCompleted 1], []) \<and>
   filter (\<lambda>r. \<not> (cov_moduleId r = 1 \<and> analysisTag r = scope_of None))
     (coverages (cs101_analyzed\<lparr>coverages :=
        [earlier_report 1 (Some ''midterm''), earlier_report 2 None,
         cs101_LO1_report, cs101_LO2_report]\<rparr>)) =
   filter (\<lambda>r. \<not> (cov_moduleId r = 1 \<and> analysisTag r = scope_of None))
     (coverages cs101_analyzed) \<and>
   filter (\<lambda>r. \<not> (cov_moduleId r = 1 \<and> analysisTag r = scope_of None))
     (coverages cs101_analyzed) =
   [earlier_report 1 (Some ''midterm''), earlier_report 2 None]"
proof -
  have f: "filter (\<lambda>r. \<not> (cov_moduleId r = 1 \<and> analysisTag r = scope_of None))
     (coverages cs101_analyzed) =
     [earlier_report 1 (Some ''midterm''), earlier_report 2 None]"
    by (simp add: cs101_analyzed_def earlier_report_def scope_of_def)
  from supersede_touches_own_scope_only [OF cs101_analyzed_run]
  have g: "filter (\<lambda>r. \<not> (cov_moduleId r = 1 \<and> analysisTag r = scope_of None))
     (coverages (cs101_analyzed\<lparr>coverages :=
        [earlier_report 1 (Some ''midterm''), earlier_report 2 None,
         cs101_LO1_report, cs101_LO2_report]\<rparr>)) =
   filter (\<lambda>r. \<not> (cov_moduleId r = 1 \<and> analysisTag r = scope_of None))
     (coverages cs101_analyzed)"
    by (rule conjunct1)
  show ?thesis by (intro conjI cs101_analyzed_run g f)
qed

section \<open>Subsets of questions\<close>

text \<open>
  C6. Every question of a run belongs to the module of the run, whatever ids were passed.
  With a list of ids that is not empty, the questions are exactly those of the module
  whose id is in the list. When no question is left, the run saves no report, deletes
  nothing and calls nothing: the store and the world are unchanged and one line is
  written to the console.
\<close>

theorem explicit_ids_stay_in_module:
  "(\<forall>q \<in> set (resolveQuestions db moduleId questionIds).
      q_moduleId q = moduleId \<and> q \<in> set (questions db)) \<and>
   (ids \<noteq> [] \<longrightarrow>
      resolveQuestions db moduleId (Some ids) =
        filter (\<lambda>q. q_moduleId q = moduleId \<and> q_id q \<in> set ids) (questions db)) \<and>
   (resolveQuestions db moduleId questionIds = [] \<longrightarrow>
      newReports client clock moduleId questionIds tag (db, console, w) = [] \<and>
      (\<exists>line. runCoverageAnalysis client clock moduleId questionIds tag (db, console, w) =
                 (db, console @ [line], w))) \<and>
   (resolveQuestions db moduleId questionIds = [] \<and> modules db moduleId = Some m \<and>
    learningOutcomes m \<noteq> [] \<longrightarrow>
      runCoverageAnalysis client clock moduleId questionIds tag (db, console, w) =
        (db, console @ [SkippingNoQuestions moduleId], w))"
proof (intro conjI impI)
  show "\<forall>q \<in> set (resolveQuestions db moduleId questionIds).
      q_moduleId q = moduleId \<and> q \<in> set (questions db)"
    by (auto simp: resolveQuestions_def split: option.splits)
next
  assume "ids \<noteq> []"
  then show "resolveQuestions db moduleId (Some ids) =
        filter (\<lambda>q. q_moduleId q = moduleId \<and> q_id q \<in> set ids) (questions db)"
    by (simp add: resolveQuestions_def)
next
  assume e: "resolveQuestions db moduleId questionIds = []"
  then have np: "\<not> proceeds db moduleId questionIds"
    by (simp add: proceeds_def split: option.splits)
  then show "newReports client clock moduleId questionIds tag (db, console, w) = []"
    by (rule newReports_noop)
  from np show "\<exists>line. runCoverageAnalysis client clock moduleId questionIds tag (db, console, w) =
                 (db, console @ [line], w)"
    by (rule runCoverageAnalysis_noop)
next
  assume "resolveQuestions db moduleId questionIds = [] \<and> modules db moduleId = Some m \<and>
    learningOutcomes m \<noteq> []"
  then show "runCoverageAnalysis client clock moduleId questionIds tag (db, console, w) =
        (db, console @ [SkippingNoQuestions moduleId], w)"
    by (simp add: runCoverageAnalysis_def)
qed

theorem explicit_ids_stay_in_module_witness:
  "[21 :: nat] \<noteq> [] \<and>
   resolveQuestions cs101 1 (Some [21]) = [] \<and>
   modules cs101 1 = Some cs101_module \<and>
   learningOutcomes cs101_module \<noteq> [] \<and>
   resolveQuestions cs101 1 (Some [21]) =
     filter (\<lambda>q. q_moduleId q = 1 \<and> q_id q \<in> set [21]) (questions cs101) \<and>
   runCoverageAnalysis scripted scripted_clock 1 (Some [21]) None (cs101, [], cs101_script) =
     (cs101, [] @ [SkippingNoQuestions 1], cs101_script)"
proof -
  have e: "resolveQuestions cs101 1 (Some [21]) = []"
    by (simp add: resolveQuestions_def cs101_def cs101_question_def)
  have m: "modules cs101 1 = Some cs101_module" by (simp add: cs101_def)
  have l: "learningOutcomes cs101_module \<noteq> []" by (simp add: cs101_module_def)
  note inst = explicit_ids_stay_in_module [where db = cs101 and moduleId = 1
      and questionIds = "Some [21]" and ids = "[21]" and m = cs101_module
      and client = scripted and clock = scripted_clock and tag = None and console = "[]"
      and w = cs101_script]
  from inst have a: "resolveQuestions cs101 1 (Some [21]) =
     filter (\<lambda>q. q_moduleId q = 1 \<and> q_id q \<in> set [21]) (questions cs101)"
    by blast
  from inst e m l have b:
    "runCoverageAnalysis scripted scripted_clock 1 (Some [21]) None (cs101, [], cs101_script) =
     (cs101, [] @ [SkippingNoQuestions 1], cs101_script)"
    by blast
  show ?thesis by (intro conjI e m l a b) simp
qed

lemma analyzeOutcomes_unfold:
  "analyzeOutcomes client clock moduleId questionIds tag qs (lo # los) ([], console, w) =
     (case compareQuestions client lo qs (empty_tally, console, w) of
        (t, c1, w1) \<Rightarrow>
          (case analyzeOutcomes client clock moduleId questionIds tag qs los ([], c1, w1) of
             (fresh, c2, w2) \<Rightarrow>
               (report_of clock moduleId questionIds tag qs lo (t, c1, w1) # fresh, c2, w2)))"
proof -
  obtain t c1 w1 where cq: "compareQuestions client lo qs (empty_tally, console, w) = (t, c1, w1)"
    by (cases "compareQuestions client lo qs (empty_tally, console, w)")
  show ?thesis
    using cq
      analyzeOutcomes_append [of client clock moduleId questionIds tag qs los
        "[report_of clock moduleId questionIds tag qs lo (t, c1, w1)]" c1 w1]
    by (simp only: analyzeOutcomes_Cons) (simp split: prod.splits)
qed

lemma analyzeOutcomes_questionIds:
  "analyzeOutcomes client clock moduleId questionIds tag qs los ([], console, w) =
     (case analyzeOutcomes client clock moduleId None tag qs los ([], console, w) of
        (fresh, c', w') \<Rightarrow> (map (\<lambda>r. r\<lparr>analyzedQuestions := questionIds\<rparr>) fresh, c', w'))"
proof (induction los arbitrary: console w)
  case Nil
  then show ?case by simp
next
  case (Cons lo los)
  show ?case
    by (simp only: analyzeOutcomes_unfold)
       (simp add: Cons.IH report_of_def split: prod.splits)
qed

lemma proceeds_empty_ids:
  "proceeds db moduleId (Some []) = proceeds db moduleId None"
  by (simp add: proceeds_def resolveQuestions_def split: option.splits)

text \<open>
  C10, as amended. With an empty list of ids the questions of the run are all the
  questions of the module, as with no list; the reports carry the empty list as
  \<open>analyzedQuestions\<close>, not null: they are the reports of the run without a list, with that
  one field changed, and the console and the world end the same.
\<close>

theorem empty_ids_mean_all_questions:
  "resolveQuestions db moduleId (Some []) =
     filter (\<lambda>q. q_moduleId q = moduleId) (questions db) \<and>
   resolveQuestions db moduleId (Some []) = resolveQuestions db moduleId None \<and>
   (\<forall>r \<in> set (newReports client clock moduleId (Some []) tag (db, console, w)).
      analyzedQuestions r = Some []) \<and>
   (\<forall>r \<in> set (newReports client clock moduleId None tag (db, console, w)).
      analyzedQuestions r = None) \<and>
   newReports client clock moduleId (Some []) tag (db, console, w) =
     map (\<lambda>r. r\<lparr>analyzedQuestions := Some []\<rparr>)
       (newReports client clock moduleId None tag (db, console, w)) \<and>
   snd (runCoverageAnalysis client clock moduleId (Some []) tag (db, console, w)) =
     snd (runCoverageAnalysis client clock moduleId None tag (db, console, w))"
proof (intro conjI)
  show r1: "resolveQuestions db moduleId (Some []) =
     filter (\<lambda>q. q_moduleId q = moduleId) (questions db)"
    by (simp add: resolveQuestions_def)
  show r2: "resolveQuestions db moduleId (Some []) = resolveQuestions db moduleId None"
    by (simp add: resolveQuestions_def)
  show "\<forall>r \<in> set (newReports client clock moduleId (Some []) tag (db, console, w)).
      analyzedQuestions r = Some []"
    using newReports_in_scope [of _ client clock moduleId "Some []" tag db console w] by blast
  show "\<forall>r \<in> set (newReports client clock moduleId None tag (db, console, w)).
      analyzedQuestions r = None"
    using newReports_in_scope [of _ client clock moduleId None tag db console w] by blast
  show "newReports client clock moduleId (Some []) tag (db, console, w) =
     map (\<lambda>r. r\<lparr>analyzedQuestions := Some []\<rparr>)
       (newReports client clock moduleId None tag (db, console, w))"
    by (simp add: newReports_def proceeds_empty_ids r2
          analyzeOutcomes_questionIds [of _ _ _ "Some []"] split: option.splits prod.splits)
  show "snd (runCoverageAnalysis client clock moduleId (Some []) tag (db, console, w)) =
     snd (runCoverageAnalysis client clock moduleId None tag (db, console, w))"
  proof (cases "proceeds db moduleId None")
    case True
    then obtain m where m: "modules db moduleId = Some m"
      by (cases "modules db moduleId") (auto simp: proceeds_def)
    from True have t: "proceeds db moduleId (Some [])" by (simp add: proceeds_empty_ids)
    show ?thesis
      using True m
      by (simp add: runCoverageAnalysis_def Let_def proceeds_def r2
            analyzeOutcomes_append [of _ _ _ _ _ _ _ "deletePrior _ _ _"]
            analyzeOutcomes_questionIds [of _ _ _ "Some []"] split: prod.splits)
  next
    case False
    then show ?thesis
      by (auto simp: runCoverageAnalysis_def Let_def proceeds_def r2 split: option.splits)
  qed
qed

theorem empty_ids_mean_all_questions_witness:
  "cs101_LO1_report\<lparr>analyzedQuestions := Some []\<rparr> \<in>
     set (newReports scripted scripted_clock 1 (Some []) None (cs101, [], cs101_script)) \<and>
   analyzedQuestions (cs101_LO1_report\<lparr>analyzedQuestions := Some []\<rparr>) = Some [] \<and>
   cs101_LO1_report \<in>
     set (newReports scripted scripted_clock 1 None None (cs101, [], cs101_script)) \<and>
   analyzedQuestions cs101_LO1_report = None \<and>
   resolveQuestions cs101 1 (Some []) = filter (\<lambda>q. q_moduleId q = 1) (questions cs101)"
proof -
  note inst = empty_ids_mean_all_questions [where db = cs101 and moduleId = 1
      and client = scripted and clock = scripted_clock and tag = None and console = "[]"
      and w = cs101_script]
  have mem: "cs101_LO1_report \<in>
      set (newReports scripted scripted_clock 1 None None (cs101, [], cs101_script))"
    unfolding cs101_newReports by simp
  from inst have eq: "newReports scripted scripted_clock 1 (Some []) None (cs101, [], cs101_script)
      = map (\<lambda>r. r\<lparr>analyzedQuestions := Some []\<rparr>)
          (newReports scripted scripted_clock 1 None None (cs101, [], cs101_script))"
    by blast
  have mem': "cs101_LO1_report\<lparr>analyzedQuestions := Some []\<rparr> \<in>
     set (newReports scripted scripted_clock 1 (Some []) None (cs101, [], cs101_script))"
    unfolding eq cs101_newReports by simp
  from inst mem' have a: "analyzedQuestions (cs101_LO1_report\<lparr>analyzedQuestions := Some []\<rparr>) = Some []"
    by blast
  from inst mem have b: "analyzedQuestions cs101_LO1_report = None" by blast
  from inst have c: "resolveQuestions cs101 1 (Some []) =
      filter (\<lambda>q. q_moduleId q = 1) (questions cs101)" by blast
  show ?thesis by (intro conjI mem' a mem b c)
qed

text \<open>
  The CS101 run with the empty list of ids: all three questions of the module are
  analysed, and both reports are saved with the empty list as \<open>analyzedQuestions\<close>, which
  is not null.
\<close>

theorem empty_ids_counterexample:
  "resolveQuestions cs101 1 (Some []) =
     [cs101_question 11 1 ''Q1'', cs101_question 12 1 ''Q2'', cs101_question 13 1 ''Q3''] \<and>
   map analyzedQuestions
     (coverages (fst (runCoverageAnalysis scripted scripted_clock 1 (Some []) None
                        (cs101, [], cs101_script)))) = [Some [], Some []] \<and>
   analyzedQuestions
     (hd (coverages (fst (runCoverageAnalysis scripted scripted_clock 1 (Some []) None
                            (cs101, [], cs101_script))))) \<noteq> None"
  by (simp add: run_defs scripted_clock_def)

section \<open>Generated questions\<close>

lemma letters: "char_of (65 :: nat) = CHR ''A''" "char_of (66 :: nat) = CHR ''B''"
  "char_of (67 :: nat) = CHR ''C''" "char_of (68 :: nat) = CHR ''D''"
  by code_simp+

lemma padOptions_full: "4 \<le> length opts \<Longrightarrow> padOptions opts = opts"
  by (subst padOptions.simps) simp

lemma padOptions_3: "length opts = 3 \<Longrightarrow> padOptions opts = opts @ [''Option D'']"
  by (subst padOptions.simps) (simp add: padOptions_full letters)

lemma padOptions_2: "length opts = 2 \<Longrightarrow> padOptions opts = opts @ [''Option C'', ''Option D'']"
  by (subst padOptions.simps) (simp add: padOptions_3 letters)

lemma padOptions_1:
  "length opts = 1 \<Longrightarrow> padOptions opts = opts @ [''Option B'', ''Option C'', ''Option D'']"
  by (subst padOptions.simps) (simp add: padOptions_2 letters)

lemma padOptions_0:
  "padOptions [] = [''Option A'', ''Option B'', ''Option C'', ''Option D'']"
  by (subst padOptions.simps) (simp add: padOptions_1 letters)

lemma padOptions_short:
  assumes "length opts < 4"
  shows "padOptions opts =
           opts @ drop (length opts) [''Option A'', ''Option B'', ''Option C'', ''Option D'']"
proof -
  from assms consider "length opts = 0" | "length opts = 1" | "length opts = 2" | "length opts = 3"
    by linarith
  then show ?thesis
    by cases (simp_all add: padOptions_0 padOptions_1 padOptions_2 padOptions_3)
qed

lemma length_padOptions_take: "length (padOptions (take 4 given)) = 4"
proof (cases "4 \<le> length given")
  case True
  then show ?thesis by (simp add: padOptions_full)
next
  case False
  then have l: "length (take 4 given) < 4" by simp
  from False show ?thesis
    by (simp only: padOptions_short [OF l]) simp
qed

text \<open>
  C9. The options of a saved MCQ are always four: the first four of a longer list, and a
  shorter list followed by the labels \<open>Option A\<close> to \<open>Option D\<close> at the missing positions,
  so two options get \<open>Option C\<close> and \<open>Option D\<close>. Whenever the question has a text, it is
  saved, whatever the options were; the correct answer is the one of the model when it is
  not missing or empty, otherwise the first option.
\<close>

theorem generated_mcq_has_four_options:
  "length (padOptions (take 4 given)) = 4 \<and>
   (4 \<le> length given \<longrightarrow> padOptions (take 4 given) = take 4 given) \<and>
   (length given < 4 \<longrightarrow>
      padOptions (take 4 given) =
        given @ drop (length given) [''Option A'', ''Option B'', ''Option C'', ''Option D'']) \<and>
   padOptions (take 4 [a, b]) = [a, b, ''Option C'', ''Option D''] \<and>
   (mcq_question mcq = Some text \<and> text \<noteq> [] \<longrightarrow>
      (\<exists>saved. saveGeneratedMCQ newId moduleId mcq = Inr saved \<and>
         options saved =
           padOptions (take 4 (case mcq_options mcq of Some given \<Rightarrow> given | None \<Rightarrow> [])) \<and>
         length (options saved) = 4 \<and>
         correctAnswer saved =
           (case mcq_correctAnswer mcq of
              Some answer \<Rightarrow> (if answer \<noteq> [] then answer else hd (options saved))
            | None \<Rightarrow> hd (options saved))))"
proof (intro conjI impI)
  show "length (padOptions (take 4 given)) = 4" by (rule length_padOptions_take)
  show "padOptions (take 4 given) = take 4 given" if "4 \<le> length given"
    using that by (simp add: padOptions_full)
  show "padOptions (take 4 given) =
        given @ drop (length given) [''Option A'', ''Option B'', ''Option C'', ''Option D'']"
    if "length given < 4"
    using that padOptions_short [of given] by simp
  show "padOptions (take 4 [a, b]) = [a, b, ''Option C'', ''Option D'']"
    by (simp add: padOptions_2)
next
  assume a: "mcq_question mcq = Some text \<and> text \<noteq> []"
  let ?opts = "padOptions (take 4 (case mcq_options mcq of Some given \<Rightarrow> given | None \<Rightarrow> []))"
  have l: "length ?opts = 4" by (rule length_padOptions_take)
  then obtain first others where o: "?opts = first # others" by (cases ?opts) auto
  let ?saved = "\<lparr>q_id = newId, q_moduleId = moduleId, questionText = text,
      questionType = MCQ, source = AI, options = ?opts,
      correctAnswer = (case mcq_correctAnswer mcq of
          Some answer \<Rightarrow> (if answer \<noteq> [] then answer else first) | None \<Rightarrow> first)\<rparr>"
  have "saveGeneratedMCQ newId moduleId mcq = Inr ?saved"
    using a o by (simp add: saveGeneratedMCQ_def Let_def split: option.splits)
  moreover have "hd (options ?saved) = first" using o by simp
  ultimately show "\<exists>saved. saveGeneratedMCQ newId moduleId mcq = Inr saved \<and>
         options saved =
           padOptions (take 4 (case mcq_options mcq of Some given \<Rightarrow> given | None \<Rightarrow> [])) \<and>
         length (options saved) = 4 \<and>
         correctAnswer saved =
           (case mcq_correctAnswer mcq of
              Some answer \<Rightarrow> (if answer \<noteq> [] then answer else hd (options saved))
            | None \<Rightarrow> hd (options saved))"
    using l by (intro exI [of _ ?saved]) (simp split: option.splits)
qed

theorem generated_mcq_has_four_options_witness:
  "mcq_question \<lparr>mcq_question = Some ''What is a loop?'',
                 mcq_options = Some [''A repetition'', ''A branch''],
                 mcq_correctAnswer = None\<rparr> = Some ''What is a loop?'' \<and>
   ''What is a loop?'' \<noteq> [] \<and>
   saveGeneratedMCQ 7 1 \<lparr>mcq_question = Some ''What is a loop?'',
                         mcq_options = Some [''A repetition'', ''A branch''],
                         mcq_correctAnswer = None\<rparr> =
     Inr \<lparr>q_id = 7, q_moduleId = 1, questionText = ''What is a loop?'', questionType = MCQ,
          source = AI,
          options = [''A repetition'', ''A branch'', ''Option C'', ''Option D''],
          correctAnswer = ''A repetition''\<rparr>"
  using generated_mcq_has_four_options [of "[''A repetition'', ''A branch'']"
      "''A repetition''" "''A branch''"
      "\<lparr>mcq_question = Some ''What is a loop?'',
        mcq_options = Some [''A repetition'', ''A branch''], mcq_correctAnswer = None\<rparr>"
      "''What is a loop?''" 7 1]
  by (auto simp: saveGeneratedMCQ_def Let_def)

section \<open>Reading the reports\<close>

lemma deduplicate_distinct:
  "distinct (map fst acc) \<Longrightarrow> distinct (map fst (deduplicate rs acc))"
  by (induction rs arbitrary: acc) auto

lemma deduplicate_first:
  "(k, r) \<in> set (deduplicate rs acc) \<Longrightarrow>
   (k, r) \<in> set acc \<or>
   (k = cov_loId r \<and> k \<notin> fst ` set acc \<and>
    (\<exists>pre post. rs = pre @ r # post \<and> cov_loId r \<notin> cov_loId ` set pre))"
proof (induction rs arbitrary: acc)
  case Nil
  then show ?case by simp
next
  case (Cons x rs)
  show ?case
  proof (cases "cov_loId x \<in> fst ` set acc")
    case True
    with Cons.prems have "(k, r) \<in> set (deduplicate rs acc)" by simp
    from Cons.IH [OF this] show ?thesis
    proof
      assume "(k, r) \<in> set acc"
      then show ?thesis by simp
    next
      assume a: "k = cov_loId r \<and> k \<notin> fst ` set acc \<and>
        (\<exists>pre post. rs = pre @ r # post \<and> cov_loId r \<notin> cov_loId ` set pre)"
      then obtain pre post where p: "rs = pre @ r # post" "cov_loId r \<notin> cov_loId ` set pre"
        by blast
      from a True have "cov_loId x \<noteq> cov_loId r" by metis
      with p have "x # rs = (x # pre) @ r # post \<and> cov_loId r \<notin> cov_loId ` set (x # pre)"
        by auto
      with a show ?thesis by blast
    qed
  next
    case False
    with Cons.prems have "(k, r) \<in> set (deduplicate rs (acc @ [(cov_loId x, x)]))" by simp
    from Cons.IH [OF this] show ?thesis
    proof
      assume "(k, r) \<in> set (acc @ [(cov_loId x, x)])"
      then have "(k, r) \<in> set acc \<or> (k = cov_loId x \<and> r = x)" by auto
      then show ?thesis
      proof
        assume "(k, r) \<in> set acc"
        then show ?thesis by simp
      next
        assume "k = cov_loId x \<and> r = x"
        with False have "k = cov_loId r \<and> k \<notin> fst ` set acc \<and>
            x # rs = [] @ r # rs \<and> cov_loId r \<notin> cov_loId ` set []" by simp
        then show ?thesis by blast
      qed
    next
      assume a: "k = cov_loId r \<and> k \<notin> fst ` set (acc @ [(cov_loId x, x)]) \<and>
        (\<exists>pre post. rs = pre @ r # post \<and> cov_loId r \<notin> cov_loId ` set pre)"
      then obtain pre post where p: "rs = pre @ r # post" "cov_loId r \<notin> cov_loId ` set pre"
        by blast
      from a have "cov_loId x \<noteq> cov_loId r" by auto
      with p have "x # rs = (x # pre) @ r # post \<and> cov_loId r \<notin> cov_loId ` set (x # pre)"
        by auto
      moreover from a have "k = cov_loId r \<and> k \<notin> fst ` set acc" by auto
      ultimately show ?thesis by blast
    qed
  qed
qed

lemma sortMostRecentFirst_sorted:
  "sorted_wrt (\<lambda>a b. analyzedAt b \<le> analyzedAt a) (sortMostRecentFirst rs)"
proof -
  have "sorted (map (\<lambda>r. - int (analyzedAt r)) (sortMostRecentFirst rs))"
    unfolding sortMostRecentFirst_def by (rule sorted_sort_key)
  then show ?thesis
    by (simp add: sorted_map sorted_wrt_iff_nth_less)
qed

lemma set_sortMostRecentFirst: "set (sortMostRecentFirst rs) = set rs"
  by (simp add: sortMostRecentFirst_def)

lemma deduplicate_covers:
  "fst ` set (deduplicate rs acc) = fst ` set acc \<union> cov_loId ` set rs"
  by (induction rs arbitrary: acc) auto

lemma deduplicate_key: "(k, r) \<in> set (deduplicate rs []) \<Longrightarrow> k = cov_loId r"
  by (drule deduplicate_first) simp

lemma enrich_fields:
  "res_loId (enrich m r) = cov_loId r" "res_analyzedAt (enrich m r) = analyzedAt r"
  by (simp_all add: enrich_def Let_def)

lemma report_keeps_latest:
  assumes "getModuleResults db moduleId tag = Inr results"
  shows "distinct (map res_loId results) \<and>
         (\<forall>res \<in> set results. \<forall>r \<in> set (findReports db moduleId tag).
            cov_loId r = res_loId res \<longrightarrow> analyzedAt r \<le> res_analyzedAt res) \<and>
         res_loId ` set results = cov_loId ` set (findReports db moduleId tag)"
proof -
  let ?sorted = "sortMostRecentFirst (findReports db moduleId tag)"
  let ?ded = "deduplicate ?sorted []"
  from assms obtain m where m: "modules db moduleId = Some m"
    by (cases "modules db moduleId") (auto simp: getModuleResults_def)
  with assms have results: "results = map (enrich m) (map snd ?ded)"
    by (simp add: getModuleResults_def Let_def)
  have key: "map (cov_loId \<circ> snd) ?ded = map fst ?ded"
    by (rule map_cong) (auto dest: deduplicate_key)
  have ids: "map res_loId results = map fst ?ded"
    unfolding results using key by (simp add: enrich_fields comp_def)
  have d: "distinct (map res_loId results)"
    unfolding ids by (rule deduplicate_distinct) simp
  have latest: "analyzedAt r' \<le> res_analyzedAt res"
    if res: "res \<in> set results" and r': "r' \<in> set (findReports db moduleId tag)"
      and same: "cov_loId r' = res_loId res" for res r'
  proof -
    from res obtain k r where kr: "(k, r) \<in> set ?ded" "res = enrich m r"
      unfolding results by auto
    from deduplicate_first [OF kr(1)] obtain pre post where
      p: "?sorted = pre @ r # post" "cov_loId r \<notin> cov_loId ` set pre" by auto
    from r' have "r' \<in> set ?sorted" by (simp add: set_sortMostRecentFirst)
    moreover from same kr(2) have "cov_loId r' = cov_loId r"
      by (simp add: enrich_fields)
    with p(2) have "r' \<notin> set pre" by (metis imageI)
    ultimately have "r' = r \<or> r' \<in> set post"
      using p(1) by auto
    moreover from sortMostRecentFirst_sorted [of "findReports db moduleId tag"] p(1)
    have "\<forall>x \<in> set post. analyzedAt x \<le> analyzedAt r"
      by (simp add: sorted_wrt_append)
    ultimately show ?thesis using kr(2) by (auto simp: enrich_fields)
  qed
  have "res_loId ` set results = fst ` set ?ded"
    using ids by (metis list.set_map)
  then have cover: "res_loId ` set results = cov_loId ` set (findReports db moduleId tag)"
    by (simp add: deduplicate_covers set_sortMostRecentFirst)
  from d latest cover show ?thesis by blast
qed

text \<open>
  The statistics count every report the query finds: the three tallies add up to the
  number of reports, however many of them are about the same learning outcome.
\<close>

lemma stats_tally_every_report:
  assumes "getStats db moduleId tag = Inr s"
  shows "covered s + partiallyCovered s + notCovered s = length (findReports db moduleId tag)"
proof -
  have three: "length (filter (\<lambda>r. status r = Covered) rs) +
      length (filter (\<lambda>r. status r = Partially_Covered) rs) +
      length (filter (\<lambda>r. status r = Not_Covered) rs) = length rs" for rs :: "coverage_doc list"
  proof (induction rs)
    case Nil
    then show ?case by simp
  next
    case (Cons r rs)
    then show ?case by (cases "status r") simp_all
  qed
  from assms obtain m where "modules db moduleId = Some m"
    by (cases "modules db moduleId") (auto simp: getStats_def)
  with assms have "covered s = length (filter (\<lambda>r. status r = Covered) (findReports db moduleId tag))"
    "partiallyCovered s =
       length (filter (\<lambda>r. status r = Partially_Covered) (findReports db moduleId tag))"
    "notCovered s = length (filter (\<lambda>r. status r = Not_Covered) (findReports db moduleId tag))"
    by (auto simp: getStats_def Let_def)
  with three [of "findReports db moduleId tag"] show ?thesis by simp
qed

text \<open>
  C5. The store holds two reports for LO1 in the default scope, the one of time 2 being
  Covered at 80 and the one of time 1 Not Covered at 0. The report of the module shows LO1
  once, with the later report. The statistics count both: one Covered, one Not Covered,
  and an average of 40.
\<close>

theorem stats_count_every_duplicate:
  "getModuleResults duplicated 1 None =
     Inr [\<lparr>res_loId = ''LO1'', res_description = ''understand loops'',
           res_bloomLevel = ''Understand'', res_coveragePercentage = Fin 80,
           res_status = Covered,
           res_questionsCovered = [\<lparr>questionId = 11, similarityScore = binary64 (8 / 10)\<rparr>],
           questionsCoveredCount = 1, res_analyzedAt = 2\<rparr>] \<and>
   getStats duplicated 1 None =
     Inr \<lparr>totalLOs = 2, covered = 1, partiallyCovered = 0, notCovered = 1,
          averageCoverage = Fin 40\<rparr>"
  by (simp add: binary64_eval getModuleResults_def getStats_def duplicated_def cs101_def
        cs101_module_def cs101_LO1_def findReports_def sortMostRecentFirst_def enrich_def Let_def)

end
